theory Spec2Isabelle
  imports Main
begin

text \<open>
  A model of the connection handling of the proxy in \<open>proxy.py\<close>: \<open>handle_client\<close>,
  \<open>handle_http\<close>, \<open>handle_https\<close> and \<open>relay_data\<close>. The handlers are functions on
  the state of the proxy (its counters) extended by the record of the socket calls made
  so far; what each call returns is decided by an environment, so that a statement about
  all environments is a statement about every behaviour of the client, the upstream
  server and the network.
\<close>

section \<open>Python values used by the proxy\<close>

text \<open>
  A Python \<open>bytes\<close> object is a list of 8-bit characters (so byte-string literals can be
  written \<open>''GET / HTTP/1.1''\<close>); a Python \<open>str\<close> is a list of Unicode code points.
\<close>

type_synonym bytes = "char list"
type_synonym str = "nat list"

definition ascii :: "string \<Rightarrow> str" where
  "ascii cs = map of_char cs"

definition crlf :: str where
  "crlf = [13, 10]"

definition crlf_bytes :: bytes where
  "crlf_bytes = [CHR 0x0D, CHR 0x0A]"

subsection \<open>\<open>str.startswith\<close>, \<open>str.split\<close>, \<open>str.lower\<close>, \<open>str.strip\<close>\<close>

definition startswith :: "str \<Rightarrow> str \<Rightarrow> bool" where
  "startswith s p = (take (length p) s = p)"

text \<open>
  \<open>s.split(sep)\<close> for a non-empty separator: scan from the left, cut at every
  non-overlapping occurrence. The accumulator holds the current piece, reversed.
\<close>

fun split_from :: "str \<Rightarrow> str \<Rightarrow> str \<Rightarrow> str list" where
  "split_from sep acc [] = [rev acc]"
| "split_from sep acc (c # cs) =
     (if sep \<noteq> [] \<and> startswith (c # cs) sep
      then rev acc # split_from sep [] (drop (length sep - 1) cs)
      else split_from sep (c # acc) cs)"

definition split_str :: "str \<Rightarrow> str \<Rightarrow> str list" where
  "split_str sep s = split_from sep [] s"

text \<open>\<open>s.split(sep, 1)\<close>: cut at the first occurrence only.\<close>

fun split_once_from :: "str \<Rightarrow> str \<Rightarrow> str \<Rightarrow> str list" where
  "split_once_from sep acc [] = [rev acc]"
| "split_once_from sep acc (c # cs) =
     (if sep \<noteq> [] \<and> startswith (c # cs) sep
      then [rev acc, drop (length sep - 1) cs]
      else split_once_from sep (c # acc) cs)"

definition split_once :: "str \<Rightarrow> str \<Rightarrow> str list" where
  "split_once sep s = split_once_from sep [] s"

text \<open>
  \<open>str.lower\<close> on the ASCII letters. The proxy only tests the lowered line against the
  prefix \<open>host:\<close>, and no code point outside \<open>A-Z\<close> lowers to one of \<open>h\<close>, \<open>o\<close>,
  \<open>s\<close>, \<open>t\<close>, \<open>:\<close>, so the test is the same as with the full Unicode mapping.
\<close>

definition lower_cp :: "nat \<Rightarrow> nat" where
  "lower_cp c = (if 65 \<le> c \<and> c \<le> 90 then c + 32 else c)"

definition py_lower :: "str \<Rightarrow> str" where
  "py_lower s = map lower_cp s"

text \<open>The code points for which \<open>str.isspace\<close> holds; \<open>str.strip\<close> removes them at both ends.\<close>

definition is_space :: "nat \<Rightarrow> bool" where
  "is_space c \<longleftrightarrow>
     (9 \<le> c \<and> c \<le> 13) \<or> (28 \<le> c \<and> c \<le> 32) \<or> c = 0x85 \<or> c = 0xA0 \<or> c = 0x1680 \<or>
     (0x2000 \<le> c \<and> c \<le> 0x200A) \<or> c = 0x2028 \<or> c = 0x2029 \<or> c = 0x202F \<or>
     c = 0x205F \<or> c = 0x3000"

definition py_strip :: "str \<Rightarrow> str" where
  "py_strip s = rev (dropWhile is_space (rev (dropWhile is_space s)))"

subsection \<open>UTF-8: \<open>bytes.decode('utf-8', errors='ignore')\<close> and \<open>str.encode('utf-8')\<close>\<close>

definition cont :: "nat \<Rightarrow> bool" where
  "cont b \<longleftrightarrow> 0x80 \<le> b \<and> b < 0xC0"

text \<open>
  The decoder, on byte values. An invalid start byte is dropped alone; after an invalid
  continuation byte decoding resumes at that byte; a sequence cut off by the end of the
  data is dropped whole. Overlong forms, surrogates and code points above \<open>0x10FFFF\<close> are
  invalid.
\<close>

fun dec_ignore :: "nat list \<Rightarrow> nat list" where
  "dec_ignore [] = []"
| "dec_ignore (b0 # rest) =
     (if b0 < 0x80 then b0 # dec_ignore rest
      else if b0 < 0xC2 then dec_ignore rest
      else if b0 < 0xE0 then
        (case rest of
           [] \<Rightarrow> []
         | b1 # r1 \<Rightarrow>
             if cont b1 then ((b0 - 0xC0) * 64 + (b1 - 0x80)) # dec_ignore r1
             else dec_ignore rest)
      else if b0 < 0xF0 then
        (case rest of
           [] \<Rightarrow> []
         | b1 # r1 \<Rightarrow>
             if \<not> cont b1 \<or> (b0 = 0xE0 \<and> b1 < 0xA0) \<or> (b0 = 0xED \<and> 0xA0 \<le> b1)
             then dec_ignore rest
             else (case r1 of
                     [] \<Rightarrow> []
                   | b2 # r2 \<Rightarrow>
                       if cont b2
                       then ((b0 - 0xE0) * 4096 + (b1 - 0x80) * 64 + (b2 - 0x80)) # dec_ignore r2
                       else dec_ignore r1))
      else if b0 < 0xF5 then
        (case rest of
           [] \<Rightarrow> []
         | b1 # r1 \<Rightarrow>
             if \<not> cont b1 \<or> (b0 = 0xF0 \<and> b1 < 0x90) \<or> (b0 = 0xF4 \<and> 0x90 \<le> b1)
             then dec_ignore rest
             else (case r1 of
                     [] \<Rightarrow> []
                   | b2 # r2 \<Rightarrow>
                       if \<not> cont b2 then dec_ignore r1
                       else (case r2 of
                               [] \<Rightarrow> []
                             | b3 # r3 \<Rightarrow>
                                 if cont b3
                                 then ((b0 - 0xF0) * 262144 + (b1 - 0x80) * 4096
                                       + (b2 - 0x80) * 64 + (b3 - 0x80)) # dec_ignore r3
                                 else dec_ignore r2)))
      else dec_ignore rest)"

definition utf8_decode :: "bytes \<Rightarrow> str" where
  "utf8_decode bs = dec_ignore (map of_char bs)"

text \<open>The encoder; a surrogate (or a number that is no code point) raises.\<close>

definition enc_cp :: "nat \<Rightarrow> nat list option" where
  "enc_cp c =
     (if c < 0x80 then Some [c]
      else if c < 0x800 then Some [0xC0 + c div 64, 0x80 + c mod 64]
      else if c < 0x10000 then
        (if 0xD800 \<le> c \<and> c \<le> 0xDFFF then None
         else Some [0xE0 + c div 4096, 0x80 + (c div 64) mod 64, 0x80 + c mod 64])
      else if c < 0x110000 then
        Some [0xF0 + c div 262144, 0x80 + (c div 4096) mod 64,
              0x80 + (c div 64) mod 64, 0x80 + c mod 64]
      else None)"

fun enc :: "nat list \<Rightarrow> nat list option" where
  "enc [] = Some []"
| "enc (c # cs) =
     (case enc_cp c of
        None \<Rightarrow> None
      | Some bs \<Rightarrow> (case enc cs of None \<Rightarrow> None | Some rest \<Rightarrow> Some (bs @ rest)))"

definition utf8_encode :: "str \<Rightarrow> bytes option" where
  "utf8_encode s = map_option (map char_of) (enc s)"



section \<open>Sockets, the environment and the proxy state\<close>

datatype sock = Client | Upstream

datatype exn = OSError | IndexError | ValueError | TypeError | OverflowError
  | UnicodeEncodeError | HostNotFound

text \<open>
  Every call of the socket interface is recorded with its arguments and its outcome
  (\<open>None\<close> or \<open>False\<close>: the call raised). The outcome of \<open>send\<close> is the number of
  bytes that the socket accepted, which may be less than the number it was given.
\<close>

datatype event =
    SetTimeout sock nat
  | Recv sock nat "bytes option"
  | Send sock bytes "nat option"
  | NewSocket bool
  | Connect "str option" int bool
  | Select "(sock list \<times> sock list) option"
  | Close sock bool

text \<open>
  The environment decides the outcome of every call; the index is the number of calls
  made so far.
\<close>

record env =
  recv_result :: "nat \<Rightarrow> sock \<Rightarrow> bytes option"
  send_result :: "nat \<Rightarrow> sock \<Rightarrow> bytes \<Rightarrow> nat option"
  socket_ok :: "nat \<Rightarrow> bool"
  connect_ok :: "nat \<Rightarrow> str \<Rightarrow> int \<Rightarrow> bool"
  select_result :: "nat \<Rightarrow> (sock list \<times> sock list) option"
  close_ok :: "nat \<Rightarrow> sock \<Rightarrow> bool"

text \<open>
  Library functions whose results the proxy only passes on are parameters:
  \<open>int(port)\<close> (\<open>None\<close>: ValueError) and \<open>urlparse(url)\<close> with its \<open>hostname\<close> and
  \<open>port\<close> attributes (\<open>None\<close>: ValueError; either attribute may itself be \<open>None\<close>).
\<close>

record pylib =
  py_int :: "str \<Rightarrow> int option"
  urlparse :: "str \<Rightarrow> (str option \<times> int option) option"

text \<open>The fields of \<open>self\<close> that the handlers use, and the record of calls.\<close>

record state =
  buffer_size :: nat
  total_requests :: int
  active_connections :: int
  errors :: int
  trace :: "event list"

definition emit :: "event \<Rightarrow> state \<Rightarrow> state" where
  "emit e s = s\<lparr>trace := trace s @ [e]\<rparr>"

definition now :: "state \<Rightarrow> nat" where
  "now s = length (trace s)"

definition settimeout :: "sock \<Rightarrow> nat \<Rightarrow> state \<Rightarrow> state" where
  "settimeout sock t s = emit (SetTimeout sock t) s"

definition sock_recv :: "env \<Rightarrow> sock \<Rightarrow> state \<Rightarrow> bytes option \<times> state" where
  "sock_recv e sock s =
     (let r = recv_result e (now s) sock in (r, emit (Recv sock (buffer_size s) r) s))"

text \<open>
  \<open>sock.send(d)\<close> returns how many bytes of \<open>d\<close> were accepted, at most all of them.
  Every caller in the proxy drops that number.
\<close>

definition sock_send :: "env \<Rightarrow> sock \<Rightarrow> bytes \<Rightarrow> state \<Rightarrow> nat option \<times> state" where
  "sock_send e sock d s =
     (let r = map_option (min (length d)) (send_result e (now s) sock d)
      in (r, emit (Send sock d r) s))"

definition new_socket :: "env \<Rightarrow> state \<Rightarrow> bool \<times> state" where
  "new_socket e s = (let ok = socket_ok e (now s) in (ok, emit (NewSocket ok) s))"

text \<open>
  \<open>connect((host, port))\<close>: a host that is \<open>None\<close> raises TypeError and a port outside
  \<open>0..65535\<close> raises OverflowError before anything is sent.
\<close>

definition sock_connect :: "env \<Rightarrow> str option \<Rightarrow> int \<Rightarrow> state \<Rightarrow> exn option \<times> state" where
  "sock_connect e host port s =
     (case host of
        None \<Rightarrow> (Some TypeError, emit (Connect None port False) s)
      | Some h \<Rightarrow>
          if port < 0 \<or> 65535 < port then (Some OverflowError, emit (Connect host port False) s)
          else if connect_ok e (now s) h port then (None, emit (Connect host port True) s)
          else (Some OSError, emit (Connect host port False) s))"

definition sock_select :: "env \<Rightarrow> state \<Rightarrow> (sock list \<times> sock list) option \<times> state" where
  "sock_select e s = (let r = select_result e (now s) in (r, emit (Select r) s))"

text \<open>\<open>try: sock.close() except: pass\<close>\<close>

definition close_quietly :: "env \<Rightarrow> sock \<Rightarrow> state \<Rightarrow> state" where
  "close_quietly e sock s = emit (Close sock (close_ok e (now s) sock)) s"

section \<open>The proxy\<close>

text \<open>
  How a call ends: it returns, it raises, or it is still inside the relay loop when the
  fuel given to that loop is used up.
\<close>

datatype outcome = Returned | Raised exn | Running

definition response_200 :: bytes where
  "response_200 = ''HTTP/1.1 200 Connection Established'' @ crlf_bytes @ crlf_bytes"

definition error_response :: bytes where
  "error_response = ''HTTP/1.1 500 Internal Server Error'' @ crlf_bytes @ crlf_bytes"

subsection \<open>\<open>relay_data\<close>\<close>

definition other :: "sock \<Rightarrow> sock" where
  "other sock = (if sock = Client then Upstream else Client)"

text \<open>The \<open>for sock in ready_sockets\<close> loop; \<open>True\<close> when it executed \<open>return\<close>.\<close>

fun relay_ready :: "env \<Rightarrow> sock list \<Rightarrow> state \<Rightarrow> bool \<times> state" where
  "relay_ready e [] s = (False, s)"
| "relay_ready e (sock # socks) s =
     (case sock_recv e sock s of
        (None, s1) \<Rightarrow> (True, s1)
      | (Some d, s1) \<Rightarrow>
          if d = [] then (True, s1)
          else (case sock_send e (other sock) d s1 of
                  (None, s2) \<Rightarrow> (True, s2)
                | (Some sent, s2) \<Rightarrow> relay_ready e socks s2))"

text \<open>The \<open>while True\<close> loop, one unit of fuel for each iteration.\<close>

fun relay_loop :: "nat \<Rightarrow> env \<Rightarrow> state \<Rightarrow> outcome \<times> state" where
  "relay_loop 0 e s = (Running, s)"
| "relay_loop (Suc n) e s =
     (case sock_select e s of
        (None, s1) \<Rightarrow> (Raised OSError, s1)
      | (Some (ready_sockets, error_sockets), s1) \<Rightarrow>
          if error_sockets \<noteq> [] then (Returned, s1)
          else (case relay_ready e ready_sockets s1 of
                  (True, s2) \<Rightarrow> (Returned, s2)
                | (False, s2) \<Rightarrow> relay_loop n e s2))"

definition relay_data :: "nat \<Rightarrow> env \<Rightarrow> state \<Rightarrow> outcome \<times> state" where
  "relay_data fuel e s =
     (case relay_loop fuel e s of
        (Running, s1) \<Rightarrow> (Running, s1)
      | (_, s1) \<Rightarrow> (Returned, close_quietly e Upstream s1))"

subsection \<open>\<open>handle_https\<close>\<close>

definition https_try :: "nat \<Rightarrow> pylib \<Rightarrow> env \<Rightarrow> str \<Rightarrow> state \<Rightarrow> outcome \<times> state" where
  "https_try fuel lib e url s =
     (case split_str (ascii '':'') url of
        [host, port] \<Rightarrow>
          (case py_int lib port of
             None \<Rightarrow> (Raised ValueError, s)
           | Some p \<Rightarrow>
               (case new_socket e s of
                  (False, s1) \<Rightarrow> (Raised OSError, s1)
                | (True, s1) \<Rightarrow>
                    (case sock_connect e (Some host) p (settimeout Upstream 10 s1) of
                       (Some x, s2) \<Rightarrow> (Raised x, s2)
                     | (None, s2) \<Rightarrow>
                         (case sock_send e Client response_200 s2 of
                            (None, s3) \<Rightarrow> (Raised OSError, s3)
                          | (Some sent, s3) \<Rightarrow> relay_data fuel e s3))))
      | _ \<Rightarrow> (Raised ValueError, s))"

text \<open>The \<open>except Exception\<close> clause of both paths: send the 500 response, unprotected.\<close>

definition send_error_response :: "env \<Rightarrow> state \<Rightarrow> outcome \<times> state" where
  "send_error_response e s =
     (case sock_send e Client error_response s of
        (None, s1) \<Rightarrow> (Raised OSError, s1)
      | (Some sent, s1) \<Rightarrow> (Returned, s1))"

definition handle_https :: "nat \<Rightarrow> pylib \<Rightarrow> env \<Rightarrow> str \<Rightarrow> state \<Rightarrow> outcome \<times> state" where
  "handle_https fuel lib e url s =
     (case https_try fuel lib e url s of
        (Raised x, s1) \<Rightarrow> send_error_response e s1
      | r \<Rightarrow> r)"

subsection \<open>\<open>handle_http\<close>\<close>

definition http_target :: "pylib \<Rightarrow> str \<Rightarrow> str \<Rightarrow> exn + (str option \<times> int)" where
  "http_target lib request url =
     (if startswith url (ascii ''http://'') then
        (case urlparse lib url of
           None \<Rightarrow> Inl ValueError
         | Some (host, port) \<Rightarrow>
             Inr (host, case port of None \<Rightarrow> 80 | Some p \<Rightarrow> if p = 0 then 80 else p))
      else
        (let lines = split_str crlf request;
             host_line = filter (\<lambda>line. startswith (py_lower line) (ascii ''host:'')) lines
         in case host_line of
              [] \<Rightarrow> Inl HostNotFound
            | l # _ \<Rightarrow>
                (case split_once (ascii '':'') l of
                   _ # v # _ \<Rightarrow> Inr (Some (py_strip v), 80)
                 | _ \<Rightarrow> Inl IndexError)))"

definition http_try :: "nat \<Rightarrow> pylib \<Rightarrow> env \<Rightarrow> str \<Rightarrow> str \<Rightarrow> state \<Rightarrow> outcome \<times> state" where
  "http_try fuel lib e request url s =
     (case http_target lib request url of
        Inl x \<Rightarrow> (Raised x, s)
      | Inr (host, port) \<Rightarrow>
          (case new_socket e s of
             (False, s1) \<Rightarrow> (Raised OSError, s1)
           | (True, s1) \<Rightarrow>
               (case sock_connect e host port (settimeout Upstream 10 s1) of
                  (Some x, s2) \<Rightarrow> (Raised x, s2)
                | (None, s2) \<Rightarrow>
                    (case utf8_encode request of
                       None \<Rightarrow> (Raised UnicodeEncodeError, s2)
                     | Some raw \<Rightarrow>
                         (case sock_send e Upstream raw s2 of
                            (None, s3) \<Rightarrow> (Raised OSError, s3)
                          | (Some sent, s3) \<Rightarrow> relay_data fuel e s3)))))"

definition handle_http :: "nat \<Rightarrow> pylib \<Rightarrow> env \<Rightarrow> str \<Rightarrow> str \<Rightarrow> state \<Rightarrow> outcome \<times> state" where
  "handle_http fuel lib e request url s =
     (case http_try fuel lib e request url s of
        (Raised x, s1) \<Rightarrow> send_error_response e s1
      | r \<Rightarrow> r)"

subsection \<open>\<open>handle_client\<close>\<close>

text \<open>The body of the \<open>try\<close> block after the counter has been incremented.\<close>

definition client_try :: "nat \<Rightarrow> pylib \<Rightarrow> env \<Rightarrow> state \<Rightarrow> outcome \<times> state" where
  "client_try fuel lib e s =
     (case sock_recv e Client (settimeout Client 30 s) of
        (None, s1) \<Rightarrow> (Raised OSError, s1)
      | (Some d, s1) \<Rightarrow>
          (let request = utf8_decode d in
           if request = [] then (Returned, s1)
           else
             (let s2 = s1\<lparr>total_requests := total_requests s1 + 1\<rparr> in
              case split_str crlf request of
                [] \<Rightarrow> (Raised IndexError, s2)
              | first_line # _ \<Rightarrow>
                  (case split_str (ascii '' '') first_line of
                     _ # url # _ \<Rightarrow>
                       if startswith first_line (ascii ''CONNECT'')
                       then handle_https fuel lib e url s2
                       else handle_http fuel lib e request url s2
                   | _ \<Rightarrow> (Raised IndexError, s2)))))"

definition handle_client :: "nat \<Rightarrow> pylib \<Rightarrow> env \<Rightarrow> state \<Rightarrow> outcome \<times> state" where
  "handle_client fuel lib e s =
     (case client_try fuel lib e (s\<lparr>active_connections := active_connections s + 1\<rparr>) of
        (Running, s1) \<Rightarrow> (Running, s1)
      | (r, s1) \<Rightarrow>
          (let s2 = (case r of Raised x \<Rightarrow> s1\<lparr>errors := errors s1 + 1\<rparr> | _ \<Rightarrow> s1);
               s3 = close_quietly e Client s2
           in (Returned, s3\<lparr>active_connections := active_connections s3 - 1\<rparr>)))"

text \<open>The calls made between two states.\<close>

definition new_events :: "state \<Rightarrow> state \<Rightarrow> event list" where
  "new_events s s' = drop (length (trace s)) (trace s')"

section \<open>Reading a record of calls\<close>

text \<open>
  The data given to \<open>send\<close> on a socket, and the non-empty data read from it, in order.
\<close>

fun sends :: "sock \<Rightarrow> event \<Rightarrow> bytes list" where
  "sends k (Send k' d r) = (if k' = k then [d] else [])"
| "sends k _ = []"

fun reads :: "sock \<Rightarrow> event \<Rightarrow> bytes list" where
  "reads k (Recv k' n (Some d)) = (if k' = k \<and> d \<noteq> [] then [d] else [])"
| "reads k _ = []"

definition sent_to :: "sock \<Rightarrow> event list \<Rightarrow> bytes list" where
  "sent_to k es = concat (map (sends k) es)"

definition received_from :: "sock \<Rightarrow> event list \<Rightarrow> bytes list" where
  "received_from k es = concat (map (reads k) es)"

fun is_close :: "sock \<Rightarrow> event \<Rightarrow> bool" where
  "is_close k (Close k' c) = (k' = k)"
| "is_close k _ = False"

fun is_io :: "event \<Rightarrow> bool" where
  "is_io (Select r) = True"
| "is_io (Recv k n r) = True"
| "is_io (Send k d r) = True"
| "is_io _ = False"

text \<open>
  The bytes that a socket accepted, in order: of the data given to a \<open>send\<close> that
  returned \<open>n\<close>, the first \<open>n\<close> bytes.
\<close>

fun wrote :: "sock \<Rightarrow> event \<Rightarrow> bytes" where
  "wrote k (Send k' d (Some n)) = (if k' = k then take n d else [])"
| "wrote k _ = []"

definition written_to :: "sock \<Rightarrow> event list \<Rightarrow> bytes" where
  "written_to k es = concat (map (wrote k) es)"



text \<open>
  The calls of a relay that can still go on: polls, and reads of non-empty data each
  followed by a \<open>send\<close> of the same data to the other socket that did not raise (however
  many bytes it accepted).
\<close>

fun open_evs :: "event list \<Rightarrow> bool" where
  "open_evs [] = True"
| "open_evs (Select r # es) = open_evs es"
| "open_evs (Recv k n (Some d) # Send k' d' (Some sent) # es) =
     (d \<noteq> [] \<and> k' = other k \<and> d' = d \<and> open_evs es)"
| "open_evs _ = False"

text \<open>
  The calls of a relay that may have ended: as before, and a failed or empty read, or a
  \<open>send\<close> that raised, only as the last call.
\<close>

fun relay_evs :: "event list \<Rightarrow> bool" where
  "relay_evs [] = True"
| "relay_evs (Select r # es) = relay_evs es"
| "relay_evs [Recv k n r] = (r = None \<or> r = Some [])"
| "relay_evs (Recv k n (Some d) # Send k' d' None # es) =
     (d \<noteq> [] \<and> k' = other k \<and> d' = d \<and> es = [])"
| "relay_evs (Recv k n (Some d) # Send k' d' (Some sent) # es) =
     (d \<noteq> [] \<and> k' = other k \<and> d' = d \<and> relay_evs es)"
| "relay_evs _ = False"

text \<open>The calls of \<open>relay_data\<close>: still relaying, or ended and the upstream socket closed.\<close>

definition relay_tail :: "outcome \<Rightarrow> event list \<Rightarrow> bool" where
  "relay_tail r ev \<longleftrightarrow>
     (r = Running \<and> open_evs ev) \<or>
     (r = Returned \<and> (\<exists>rel c. ev = rel @ [Close Upstream c] \<and> relay_evs rel))"

section \<open>The calls of a handler\<close>

text \<open>
  The calls of a try block of \<open>handle_https\<close> or \<open>handle_http\<close> that raised: nothing
  (the target could not be determined), a socket that could not be created, a failed
  connect, or a successful connect followed by the failed first write (of \<open>d\<close>, to \<open>k\<close>;
  no write when the request could not be encoded).
\<close>

definition try_fail :: "sock \<Rightarrow> bytes option \<Rightarrow> event list \<Rightarrow> bool" where
  "try_fail k d ev \<longleftrightarrow>
     ev = [] \<or> ev = [NewSocket False] \<or>
     (\<exists>h p. ev = [NewSocket True, SetTimeout Upstream 10, Connect h p False]) \<or>
     (\<exists>h p. ev = [NewSocket True, SetTimeout Upstream 10, Connect h p True] @
                 (case d of None \<Rightarrow> [] | Some raw \<Rightarrow> [Send k raw None]))"

text \<open>The calls of a try block that reached the relay.\<close>

definition try_ok :: "sock \<Rightarrow> bytes \<Rightarrow> outcome \<Rightarrow> event list \<Rightarrow> bool" where
  "try_ok k raw r ev \<longleftrightarrow>
     (\<exists>h p sent rel.
        ev = [NewSocket True, SetTimeout Upstream 10, Connect h p True, Send k raw (Some sent)] @ rel
        \<and> relay_tail r rel)"

text \<open>
  The calls of a handler: a try block that raised, followed by the write of the 500
  response (which raises when it fails), or a try block that reached the relay.
\<close>

definition handled :: "sock \<Rightarrow> bytes option \<Rightarrow> outcome \<Rightarrow> event list \<Rightarrow> bool" where
  "handled k d r ev \<longleftrightarrow>
     (\<exists>pre res. try_fail k d pre \<and> ev = pre @ [Send Client error_response res] \<and>
        r = (if res = None then Raised OSError else Returned)) \<or>
     (\<exists>raw. d = Some raw \<and> try_ok k raw r ev)"

text \<open>
  The calls of \<open>handle_client\<close> between the first read, whose result is \<open>r0\<close>, and the
  close of the client socket, with the outcome of the try block.
\<close>

definition session :: "bytes option \<Rightarrow> outcome \<Rightarrow> event list \<Rightarrow> bool" where
  "session r0 r ev =
     (case r0 of
        None \<Rightarrow> r = Raised OSError \<and> ev = []
      | Some d \<Rightarrow>
          if utf8_decode d = [] then r = Returned \<and> ev = []
          else (case split_str crlf (utf8_decode d) of
                  [] \<Rightarrow> r = Raised IndexError \<and> ev = []
                | first_line # _ \<Rightarrow>
                    (case split_str (ascii '' '') first_line of
                       _ # url # _ \<Rightarrow>
                         if startswith first_line (ascii ''CONNECT'')
                         then handled Client (Some response_200) r ev
                         else handled Upstream (utf8_encode (utf8_decode d)) r ev
                     | _ \<Rightarrow> r = Raised IndexError \<and> ev = [])))"

text \<open>Whether the request counter is incremented after a first read with result \<open>r0\<close>.\<close>

definition counted :: "bytes option \<Rightarrow> bool" where
  "counted r0 = (case r0 of None \<Rightarrow> False | Some d \<Rightarrow> utf8_decode d \<noteq> [])"

fun raised :: "outcome \<Rightarrow> bool" where
  "raised (Raised x) = True"
| "raised _ = False"

section \<open>Example inputs\<close>

text \<open>The state of a proxy built with the constructor's defaults, before any connection.\<close>

definition start_state :: state where
  "start_state =
     \<lparr>buffer_size = 8192, total_requests = 0, active_connections = 0, errors = 0, trace = []\<rparr>"

text \<open>
  An environment in which every call succeeds, every write is accepted whole, both
  sockets are always ready, and the \<open>n\<close>-th call, when it is a read, returns \<open>rd n\<close>.
\<close>

definition friendly :: "(nat \<Rightarrow> bytes option) \<Rightarrow> env" where
  "friendly rd =
     \<lparr>recv_result = (\<lambda>n k. rd n), send_result = (\<lambda>n k d. Some (length d)),
      socket_ok = (\<lambda>n. True),
      connect_ok = (\<lambda>n h p. True), select_result = (\<lambda>n. Some ([Client, Upstream], [])),
      close_ok = (\<lambda>n k. True)\<rparr>"

text \<open>
  Library functions for the examples: \<open>int\<close> on ASCII decimal digits, and \<open>urlparse\<close>
  on URLs of the form \<open>http://host/...\<close> and \<open>http://host:port/...\<close>.
\<close>

fun digits_value :: "nat \<Rightarrow> str \<Rightarrow> nat option" where
  "digits_value acc [] = Some acc"
| "digits_value acc (c # cs) =
     (if 48 \<le> c \<and> c \<le> 57 then digits_value (acc * 10 + (c - 48)) cs else None)"

definition simple_int :: "str \<Rightarrow> int option" where
  "simple_int s = (if s = [] then None else map_option int (digits_value 0 s))"

definition simple_urlparse :: "str \<Rightarrow> (str option \<times> int option) option" where
  "simple_urlparse u =
     (case split_str (ascii '':'') (takeWhile (\<lambda>c. c \<noteq> 47) (drop 7 u)) of
        [h] \<Rightarrow> Some (Some h, None)
      | [h, p] \<Rightarrow> (case simple_int p of None \<Rightarrow> None | Some n \<Rightarrow> Some (Some h, Some n))
      | _ \<Rightarrow> None)"

definition simple_lib :: pylib where
  "simple_lib = \<lparr>py_int = simple_int, urlparse = simple_urlparse\<rparr>"

text \<open>
  Requests, and the first read followed by one more chunk during the relay.
\<close>

definition connect_request :: bytes where
  "connect_request = ''CONNECT example.com:443 HTTP/1.1'' @ crlf_bytes @ crlf_bytes"

definition bare_get :: bytes where
  "bare_get = ''GET / HTTP/1.1'' @ crlf_bytes @ crlf_bytes"

definition script :: "bytes \<Rightarrow> bytes \<Rightarrow> nat \<Rightarrow> bytes option" where
  "script req chunk n = (if n = 1 then Some req else if n = 7 then Some chunk else Some [])"

text \<open>Environments in which every connect is refused, and in which every write fails.\<close>

definition refusing :: "env \<Rightarrow> env" where
  "refusing e = e\<lparr>connect_ok := (\<lambda>n h p. False)\<rparr>"

definition deaf :: "env \<Rightarrow> env" where
  "deaf e = e\<lparr>send_result := (\<lambda>n k d. None)\<rparr>"

text \<open>The states in which the example runs end.\<close>

definition connect_final :: state where
  "connect_final = start_state\<lparr>total_requests := 1, trace :=
        [SetTimeout Client 30, Recv Client 8192 (Some connect_request),
         NewSocket True, SetTimeout Upstream 10,
         Connect (Some (ascii ''example.com'')) 443 True,
         Send Client response_200 (Some (length response_200)),
         Select (Some ([Client, Upstream], [])),
         Recv Client 8192 (Some ''hello''), Send Upstream ''hello'' (Some (length ''hello'')),
         Recv Upstream 8192 (Some []), Close Upstream True, Close Client True]\<rparr>"

definition refused_final :: state where
  "refused_final = start_state\<lparr>total_requests := 1, trace :=
     [SetTimeout Client 30, Recv Client 8192 (Some connect_request),
      NewSocket True, SetTimeout Upstream 10,
      Connect (Some (ascii ''example.com'')) 443 False,
      Send Client error_response (Some (length error_response)), Close Client True]\<rparr>"

definition refused_deaf_final :: state where
  "refused_deaf_final = start_state\<lparr>total_requests := 1, errors := 1, trace :=
     [SetTimeout Client 30, Recv Client 8192 (Some connect_request),
      NewSocket True, SetTimeout Upstream 10,
      Connect (Some (ascii ''example.com'')) 443 False,
      Send Client error_response None, Close Client True]\<rparr>"

definition bare_get_final :: state where
  "bare_get_final = start_state\<lparr>total_requests := 1, trace :=
     [SetTimeout Client 30, Recv Client 8192 (Some bare_get),
      Send Client error_response (Some (length error_response)), Close Client True]\<rparr>"

definition connectx_request :: bytes where
  "connectx_request = ''CONNECTX example.com:443 HTTP/1.1'' @ crlf_bytes @ crlf_bytes"

definition connectx_final :: state where
  "connectx_final = start_state\<lparr>total_requests := 1, trace :=
        [SetTimeout Client 30, Recv Client 8192 (Some connectx_request),
         NewSocket True, SetTimeout Upstream 10,
         Connect (Some (ascii ''example.com'')) 443 True,
         Send Client response_200 (Some (length response_200)),
         Select (Some ([Client, Upstream], [])),
         Recv Client 8192 (Some ''hello''), Send Upstream ''hello'' (Some (length ''hello'')),
         Recv Upstream 8192 (Some []), Close Upstream True, Close Client True]\<rparr>"









section \<open>Facts about UTF-8\<close>




















section \<open>Facts about the relay\<close>

lemma sock_neq [simp]: "(k \<noteq> Client) = (k = Upstream)" "(k \<noteq> Upstream) = (k = Client)"
  by (cases k; simp)+

lemma other_simps [simp]: "other Client = Upstream" "other Upstream = Client"
  by (simp_all add: other_def)

lemma other_other [simp]: "other (other k) = k"
  by (cases k) simp_all

lemma open_evs_append: "open_evs a \<Longrightarrow> open_evs b \<Longrightarrow> open_evs (a @ b)"
  by (induction a rule: open_evs.induct) simp_all

lemma relay_evs_append: "open_evs a \<Longrightarrow> relay_evs b \<Longrightarrow> relay_evs (a @ b)"
  by (induction a rule: open_evs.induct) simp_all

lemma open_evs_relay: "open_evs a \<Longrightarrow> relay_evs a"
  using relay_evs_append [of a "[]"] by simp

lemma sent_to_simps [simp]:
  "sent_to k [] = []"
  "sent_to k (ev # es) = sends k ev @ sent_to k es"
  "sent_to k (a @ b) = sent_to k a @ sent_to k b"
  by (simp_all add: sent_to_def)

lemma received_from_simps [simp]:
  "received_from k [] = []"
  "received_from k (ev # es) = reads k ev @ received_from k es"
  "received_from k (a @ b) = received_from k a @ received_from k b"
  by (simp_all add: received_from_def)

lemma relay_evs_sent: "relay_evs es \<Longrightarrow> sent_to k es = received_from (other k) es"
  by (induction es rule: relay_evs.induct) (auto split: if_splits)

lemma relay_evs_io: "relay_evs es \<Longrightarrow> ev \<in> set es \<Longrightarrow> is_io ev"
  by (induction es rule: relay_evs.induct) (auto split: if_splits)

lemma relay_evs_zero_last:
  "relay_evs es \<Longrightarrow> i < length es \<Longrightarrow> es ! i = Recv k n (Some []) \<Longrightarrow> Suc i = length es"
proof (induction es arbitrary: i rule: relay_evs.induct)
  case (2 r es)
  then show ?case by (cases i) auto
next
  case (4 k' n' d k'' d' es)
  then have "es = []" and "d \<noteq> []" by simp_all
  with "4.prems" show ?case by (cases i) simp_all
next
  case (5 k' n' d k'' d' sent es)
  show ?case
  proof (cases i)
    case 0
    with "5.prems" show ?thesis by simp
  next
    case (Suc j)
    show ?thesis
    proof (cases j)
      case 0
      with Suc "5.prems" show ?thesis by simp
    next
      case (Suc m)
      with \<open>i = Suc j\<close> "5.prems" have "relay_evs es" and "m < length es"
        and "es ! m = Recv k n (Some [])"
        by simp_all
      with "5.IH" have "Suc m = length es" by simp
      with Suc \<open>i = Suc j\<close> show ?thesis by simp
    qed
  qed
qed simp_all

lemmas prim_defs = sock_recv_def sock_send_def new_socket_def sock_connect_def sock_select_def
  close_quietly_def settimeout_def emit_def now_def Let_def

lemma relay_ready_shape:
  "relay_ready e socks s = (b, s') \<Longrightarrow>
     \<exists>ev. s' = s\<lparr>trace := trace s @ ev\<rparr> \<and> (if b then relay_evs ev else open_evs ev)"
proof (induction socks arbitrary: s)
  case Nil
  then have "s' = s\<lparr>trace := trace s @ []\<rparr> \<and> (if b then relay_evs [] else open_evs [])"
    by auto
  then show ?case by blast
next
  case (Cons k socks)
  show ?case
  proof (cases "recv_result e (length (trace s)) k")
    case None
    with Cons.prems have "s' = s\<lparr>trace := trace s @ [Recv k (buffer_size s) None]\<rparr>" and b
      by (auto simp: prim_defs)
    then have "s' = s\<lparr>trace := trace s @ [Recv k (buffer_size s) None]\<rparr>
        \<and> (if b then relay_evs [Recv k (buffer_size s) None] else open_evs [Recv k (buffer_size s) None])"
      by simp
    then show ?thesis by blast
  next
    case (Some d)
    show ?thesis
    proof (cases "d = []")
      case True
      with Some Cons.prems have "s' = s\<lparr>trace := trace s @ [Recv k (buffer_size s) (Some [])]\<rparr>" and b
        by (auto simp: prim_defs)
      then have "s' = s\<lparr>trace := trace s @ [Recv k (buffer_size s) (Some [])]\<rparr>
        \<and> (if b then relay_evs [Recv k (buffer_size s) (Some [])] else open_evs [Recv k (buffer_size s) (Some [])])"
        by simp
      then show ?thesis by blast
    next
      case False
      define res where
        "res = map_option (min (length d)) (send_result e (Suc (length (trace s))) (other k) d)"
      define s2 where "s2 = s\<lparr>trace := trace s @ [Recv k (buffer_size s) (Some d), Send (other k) d res]\<rparr>"
      have snd: "sock_send e (other k) d (s\<lparr>trace := trace s @ [Recv k (buffer_size s) (Some d)]\<rparr>)
                  = (res, s2)"
        by (simp add: prim_defs res_def s2_def)
      show ?thesis
      proof (cases res)
        case (Some sent)
        with \<open>recv_result e (length (trace s)) k = Some d\<close> False Cons.prems snd
        have "relay_ready e socks s2 = (b, s')"
          by (simp add: sock_recv_def emit_def now_def Let_def)
        from Cons.IH [OF this] obtain ev where
          ev: "s' = s2\<lparr>trace := trace s2 @ ev\<rparr>" "if b then relay_evs ev else open_evs ev"
          by blast
        let ?pre = "[Recv k (buffer_size s) (Some d), Send (other k) d (Some sent)]"
        have o: "open_evs ?pre" using False by simp
        from ev Some have "s' = s\<lparr>trace := trace s @ (?pre @ ev)\<rparr>"
          by (simp add: s2_def)
        moreover from ev(2) o have "if b then relay_evs (?pre @ ev) else open_evs (?pre @ ev)"
          using relay_evs_append [OF o, of ev] open_evs_append [OF o, of ev] by (simp split: if_splits)
        ultimately show ?thesis by blast
      next
        case None
        with \<open>recv_result e (length (trace s)) k = Some d\<close> False Cons.prems snd
        have "s' = s2" and b
          by (simp_all add: sock_recv_def emit_def now_def Let_def)
        with None False have "s' = s\<lparr>trace := trace s @ [Recv k (buffer_size s) (Some d), Send (other k) d None]\<rparr>
          \<and> (if b then relay_evs [Recv k (buffer_size s) (Some d), Send (other k) d None]
              else open_evs [Recv k (buffer_size s) (Some d), Send (other k) d None])"
          by (simp add: s2_def)
        then show ?thesis by blast
      qed
    qed
  qed
qed

lemma relay_loop_shape:
  "relay_loop n e s = (r, s') \<Longrightarrow>
     \<exists>ev. s' = s\<lparr>trace := trace s @ ev\<rparr> \<and> (if r = Running then open_evs ev else relay_evs ev)"
proof (induction n arbitrary: s)
  case 0
  then have "s' = s\<lparr>trace := trace s @ []\<rparr> \<and> (if r = Running then open_evs [] else relay_evs [])"
    by auto
  then show ?case by blast
next
  case (Suc n)
  define sel where "sel = select_result e (length (trace s))"
  define s1 where "s1 = s\<lparr>trace := trace s @ [Select sel]\<rparr>"
  have o: "open_evs [Select sel]" by simp
  have stop: ?case if "s' = s1" "r \<noteq> Running"
  proof -
    from that have "s' = s\<lparr>trace := trace s @ [Select sel]\<rparr>
       \<and> (if r = Running then open_evs [Select sel] else relay_evs [Select sel])"
      by (simp add: s1_def)
    then show ?thesis by blast
  qed
  have cont: ?case
    if "s' = s1\<lparr>trace := trace s1 @ ev\<rparr>" "if r = Running then open_evs ev else relay_evs ev" for ev
  proof -
    from that(1) have "s' = s\<lparr>trace := trace s @ ([Select sel] @ ev)\<rparr>"
      by (simp add: s1_def)
    moreover from that(2)
    have "if r = Running then open_evs ([Select sel] @ ev) else relay_evs ([Select sel] @ ev)"
      by (simp split: if_splits)
    ultimately show ?thesis by blast
  qed
  show ?case
  proof (cases sel)
    case None
    with Suc.prems have "s' = s1" "r \<noteq> Running"
      by (auto simp: prim_defs sel_def s1_def)
    then show ?thesis by (rule stop)
  next
    case (Some p)
    obtain ready errs where p: "p = (ready, errs)" by (cases p)
    show ?thesis
    proof (cases "errs = []")
      case False
      with Some p Suc.prems have "s' = s1" "r \<noteq> Running"
        by (auto simp: prim_defs sel_def s1_def)
      then show ?thesis by (rule stop)
    next
      case True
      obtain b s2 where rr: "relay_ready e ready s1 = (b, s2)" by (cases "relay_ready e ready s1")
      from relay_ready_shape [OF rr] obtain ev where
        ev: "s2 = s1\<lparr>trace := trace s1 @ ev\<rparr>" "if b then relay_evs ev else open_evs ev"
        by blast
      show ?thesis
      proof (cases b)
        case True
        with Some p \<open>errs = []\<close> rr Suc.prems have "s' = s2" "r = Returned"
          by (auto simp: prim_defs sel_def s1_def)
        with ev True show ?thesis by (intro cont [of ev]) simp_all
      next
        case False
        with Some p \<open>errs = []\<close> rr Suc.prems have "relay_loop n e s2 = (r, s')"
          by (auto simp: prim_defs sel_def s1_def)
        from Suc.IH [OF this] obtain ev2 where
          ev2: "s' = s2\<lparr>trace := trace s2 @ ev2\<rparr>" "if r = Running then open_evs ev2 else relay_evs ev2"
          by blast
        from ev False have o2: "open_evs ev" by simp
        from ev2 ev have "s' = s1\<lparr>trace := trace s1 @ (ev @ ev2)\<rparr>" by simp
        moreover from ev2(2) have "if r = Running then open_evs (ev @ ev2) else relay_evs (ev @ ev2)"
          using relay_evs_append [OF o2, of ev2] open_evs_append [OF o2, of ev2]
          by (simp split: if_splits)
        ultimately show ?thesis by (rule cont)
      qed
    qed
  qed
qed

lemma relay_data_shape:
  "relay_data fuel e s = (r, s') \<Longrightarrow>
     \<exists>ev. (r = Running \<and> open_evs ev \<and> s' = s\<lparr>trace := trace s @ ev\<rparr>) \<or>
          (r = Returned \<and> relay_evs ev \<and>
           s' = s\<lparr>trace := trace s @ ev @ [Close Upstream (close_ok e (length (trace s @ ev)) Upstream)]\<rparr>)"
proof -
  assume a: "relay_data fuel e s = (r, s')"
  obtain r1 s1 where l: "relay_loop fuel e s = (r1, s1)" by (cases "relay_loop fuel e s")
  from relay_loop_shape [OF l] obtain ev where
    ev: "s1 = s\<lparr>trace := trace s @ ev\<rparr>" "if r1 = Running then open_evs ev else relay_evs ev"
    by blast
  show ?thesis
  proof (cases "r1 = Running")
    case True
    with a l ev have "r = Running \<and> open_evs ev \<and> s' = s\<lparr>trace := trace s @ ev\<rparr>"
      by (auto simp: relay_data_def)
    then show ?thesis by blast
  next
    case False
    with a l have "r = Returned" "s' = close_quietly e Upstream s1"
      by (cases r1; auto simp: relay_data_def)+
    with ev False have "r = Returned \<and> relay_evs ev \<and>
           s' = s\<lparr>trace := trace s @ ev @ [Close Upstream (close_ok e (length (trace s @ ev)) Upstream)]\<rparr>"
      by (simp add: prim_defs)
    then show ?thesis by blast
  qed
qed

lemma relay_data_tail:
  assumes "relay_data fuel e s = (r, s')"
  shows "\<exists>ev. s' = s\<lparr>trace := trace s @ ev\<rparr> \<and> relay_tail r ev"
proof -
  from relay_data_shape [OF assms] obtain ev where
    "(r = Running \<and> open_evs ev \<and> s' = s\<lparr>trace := trace s @ ev\<rparr>) \<or>
     (r = Returned \<and> relay_evs ev \<and>
      s' = s\<lparr>trace := trace s @ ev @ [Close Upstream (close_ok e (length (trace s @ ev)) Upstream)]\<rparr>)"
    by blast
  then show ?thesis
  proof
    assume "r = Running \<and> open_evs ev \<and> s' = s\<lparr>trace := trace s @ ev\<rparr>"
    then have "s' = s\<lparr>trace := trace s @ ev\<rparr> \<and> relay_tail r ev"
      by (simp add: relay_tail_def)
    then show ?thesis by blast
  next
    let ?c = "Close Upstream (close_ok e (length (trace s @ ev)) Upstream)"
    assume "r = Returned \<and> relay_evs ev \<and> s' = s\<lparr>trace := trace s @ ev @ [?c]\<rparr>"
    then have "s' = s\<lparr>trace := trace s @ (ev @ [?c])\<rparr> \<and> relay_tail r (ev @ [?c])"
      by (auto simp add: relay_tail_def)
    then show ?thesis by blast
  qed
qed

lemma new_events_append [simp]: "new_events s (s\<lparr>trace := trace s @ ev\<rparr>) = ev"
  by (simp add: new_events_def)

lemma open_evs_io: "open_evs es \<Longrightarrow> ev \<in> set es \<Longrightarrow> is_io ev"
  using open_evs_relay relay_evs_io by blast

lemma open_evs_no_zero: "open_evs es \<Longrightarrow> Recv k n (Some []) \<notin> set es"
  by (induction es rule: open_evs.induct) auto

lemma is_io_not_close: "is_io ev \<Longrightarrow> \<not> is_close k ev"
  by (cases ev) simp_all

section \<open>Facts about the handlers\<close>

text \<open>The part of both try blocks from the creation of the socket to the connect.\<close>

lemma connect_cases:
  assumes "sock_connect e host p (settimeout Upstream 10 s1) = (x, s2)"
    and "s1 = s\<lparr>trace := trace s @ [NewSocket True]\<rparr>"
  shows "\<exists>ok. s2 = s\<lparr>trace := trace s @ [NewSocket True, SetTimeout Upstream 10, Connect host p ok]\<rparr>
           \<and> (ok \<longleftrightarrow> x = None)"
  using assms by (auto simp: prim_defs split: option.splits if_splits)

lemma https_try_shape:
  assumes "https_try fuel lib e url s = (r, s')"
  shows "\<exists>ev. s' = s\<lparr>trace := trace s @ ev\<rparr> \<and>
           (((\<exists>x. r = Raised x) \<and> try_fail Client (Some response_200) ev) \<or>
            try_ok Client response_200 r ev)"
proof -
  have fail: ?thesis if "s' = s\<lparr>trace := trace s @ ev\<rparr>" "r = Raised x"
    "try_fail Client (Some response_200) ev" for ev x
    using that by blast
  show ?thesis
  proof (cases "\<exists>host port. split_str (ascii '':'') url = [host, port]")
    case False
    with assms have "s' = s\<lparr>trace := trace s @ []\<rparr>" "r = Raised ValueError"
      by (auto simp: https_try_def split: list.splits)
    then show ?thesis by (rule fail) (simp add: try_fail_def)
  next
    case True
    then obtain host port where sp: "split_str (ascii '':'') url = [host, port]" by blast
    show ?thesis
    proof (cases "py_int lib port")
      case None
      with assms sp have "s' = s\<lparr>trace := trace s @ []\<rparr>" "r = Raised ValueError"
        by (auto simp: https_try_def)
      then show ?thesis by (rule fail) (simp add: try_fail_def)
    next
      case (Some p)
      show ?thesis
      proof (cases "socket_ok e (length (trace s))")
        case False
        with assms sp Some have "s' = s\<lparr>trace := trace s @ [NewSocket False]\<rparr>" "r = Raised OSError"
          by (auto simp: https_try_def prim_defs)
        then show ?thesis by (rule fail) (simp add: try_fail_def)
      next
        case True
        define s1 where "s1 = s\<lparr>trace := trace s @ [NewSocket True]\<rparr>"
        obtain x s2 where c: "sock_connect e (Some host) p (settimeout Upstream 10 s1) = (x, s2)"
          by (cases "sock_connect e (Some host) p (settimeout Upstream 10 s1)")
        from connect_cases [OF c s1_def] obtain ok where
          s2: "s2 = s\<lparr>trace := trace s @ [NewSocket True, SetTimeout Upstream 10, Connect (Some host) p ok]\<rparr>"
          and ok: "ok \<longleftrightarrow> x = None" by blast
        from assms sp Some True c have rest: "(case x of Some x \<Rightarrow> (Raised x, s2)
            | None \<Rightarrow> (case sock_send e Client response_200 s2 of
                            (None, s3) \<Rightarrow> (Raised OSError, s3)
                          | (Some sent, s3) \<Rightarrow> relay_data fuel e s3)) = (r, s')"
          by (simp add: https_try_def new_socket_def emit_def now_def Let_def s1_def)
        show ?thesis
        proof (cases x)
          case (Some y)
          with rest ok s2 have "s' = s\<lparr>trace := trace s @ [NewSocket True, SetTimeout Upstream 10, Connect (Some host) p False]\<rparr>"
            "r = Raised y" by auto
          then show ?thesis by (rule fail) (simp add: try_fail_def)
        next
          case None
          define sres where
            "sres = map_option (min (length response_200))
                      (send_result e (length (trace s2)) Client response_200)"
          define s3 where "s3 = s\<lparr>trace := trace s @ [NewSocket True, SetTimeout Upstream 10, Connect (Some host) p True, Send Client response_200 sres]\<rparr>"
          from None ok s2 have s3': "sock_send e Client response_200 s2 = (sres, s3)"
            by (simp add: s3_def sres_def prim_defs)
          show ?thesis
          proof (cases sres)
            case nosend: None
            with rest None s3' have "s' = s3" "r = Raised OSError"
              by simp_all
            with nosend show ?thesis unfolding s3_def by (intro fail) (auto simp: try_fail_def)
          next
            case (Some sent)
            with rest None s3' have "relay_data fuel e s3 = (r, s')"
              by simp
            from relay_data_tail [OF this] obtain rel where
              rel: "s' = s3\<lparr>trace := trace s3 @ rel\<rparr>" "relay_tail r rel" by blast
            let ?ev = "[NewSocket True, SetTimeout Upstream 10, Connect (Some host) p True, Send Client response_200 (Some sent)] @ rel"
            from rel Some have "s' = s\<lparr>trace := trace s @ ?ev\<rparr>" by (simp add: s3_def)
            moreover from rel have "try_ok Client response_200 r ?ev"
              unfolding try_ok_def by blast
            ultimately show ?thesis by blast
          qed
        qed
      qed
    qed
  qed
qed

lemma try_ok_not_raised: "try_ok k raw r ev \<Longrightarrow> r \<noteq> Raised x"
  by (auto simp: try_ok_def relay_tail_def)

lemma http_try_shape:
  assumes "http_try fuel lib e request url s = (r, s')"
  shows "\<exists>ev. s' = s\<lparr>trace := trace s @ ev\<rparr> \<and>
           (((\<exists>x. r = Raised x) \<and> try_fail Upstream (utf8_encode request) ev) \<or>
            (\<exists>raw. utf8_encode request = Some raw \<and> try_ok Upstream raw r ev))"
proof -
  have fail: ?thesis if "s' = s\<lparr>trace := trace s @ ev\<rparr>" "r = Raised x"
    "try_fail Upstream (utf8_encode request) ev" for ev x
    using that by blast
  show ?thesis
  proof (cases "http_target lib request url")
    case (Inl x)
    with assms have "s' = s\<lparr>trace := trace s @ []\<rparr>" "r = Raised x"
      by (auto simp: http_try_def)
    then show ?thesis by (rule fail) (simp add: try_fail_def)
  next
    case (Inr hp)
    obtain host p where hp: "hp = (host, p)" by (cases hp)
    show ?thesis
    proof (cases "socket_ok e (length (trace s))")
      case False
      with assms Inr hp have "s' = s\<lparr>trace := trace s @ [NewSocket False]\<rparr>" "r = Raised OSError"
        by (auto simp: http_try_def prim_defs)
      then show ?thesis by (rule fail) (simp add: try_fail_def)
    next
      case True
      define s1 where "s1 = s\<lparr>trace := trace s @ [NewSocket True]\<rparr>"
      obtain x s2 where c: "sock_connect e host p (settimeout Upstream 10 s1) = (x, s2)"
        by (cases "sock_connect e host p (settimeout Upstream 10 s1)")
      from connect_cases [OF c s1_def] obtain ok where
        s2: "s2 = s\<lparr>trace := trace s @ [NewSocket True, SetTimeout Upstream 10, Connect host p ok]\<rparr>"
        and ok: "ok \<longleftrightarrow> x = None" by blast
      from assms Inr hp True c have rest: "(case x of Some x \<Rightarrow> (Raised x, s2)
            | None \<Rightarrow> (case utf8_encode request of
                         None \<Rightarrow> (Raised UnicodeEncodeError, s2)
                       | Some raw \<Rightarrow>
                          (case sock_send e Upstream raw s2 of
                            (None, s3) \<Rightarrow> (Raised OSError, s3)
                          | (Some sent, s3) \<Rightarrow> relay_data fuel e s3))) = (r, s')"
        by (simp add: http_try_def new_socket_def emit_def now_def Let_def s1_def)
      show ?thesis
      proof (cases x)
        case (Some y)
        with rest ok s2 have "s' = s\<lparr>trace := trace s @ [NewSocket True, SetTimeout Upstream 10, Connect host p False]\<rparr>"
          "r = Raised y" by auto
        then show ?thesis by (rule fail) (auto simp: try_fail_def)
      next
        case None
        show ?thesis
        proof (cases "utf8_encode request")
          case noenc: None
          with rest None ok s2 have "s' = s\<lparr>trace := trace s @ [NewSocket True, SetTimeout Upstream 10, Connect host p True]\<rparr>"
            "r = Raised UnicodeEncodeError" by auto
          then show ?thesis using noenc by (intro fail) (auto simp: try_fail_def)
        next
          case (Some raw)
          define sres where
            "sres = map_option (min (length raw)) (send_result e (length (trace s2)) Upstream raw)"
          define s3 where "s3 = s\<lparr>trace := trace s @ [NewSocket True, SetTimeout Upstream 10, Connect host p True, Send Upstream raw sres]\<rparr>"
          from None ok s2 have s3': "sock_send e Upstream raw s2 = (sres, s3)"
            by (simp add: s3_def sres_def prim_defs)
          show ?thesis
          proof (cases sres)
            case nosend: None
            with rest None Some s3' have "s' = s3" "r = Raised OSError"
              by simp_all
            with nosend Some show ?thesis unfolding s3_def by (intro fail) (auto simp: try_fail_def)
          next
            case sent: (Some sent)
            with rest None Some s3' have "relay_data fuel e s3 = (r, s')"
              by simp
            from relay_data_tail [OF this] obtain rel where
              rel: "s' = s3\<lparr>trace := trace s3 @ rel\<rparr>" "relay_tail r rel" by blast
            let ?ev = "[NewSocket True, SetTimeout Upstream 10, Connect host p True, Send Upstream raw (Some sent)] @ rel"
            from rel sent have "s' = s\<lparr>trace := trace s @ ?ev\<rparr>" by (simp add: s3_def)
            moreover from rel have "try_ok Upstream raw r ?ev"
              unfolding try_ok_def by blast
            ultimately show ?thesis using Some by blast
          qed
        qed
      qed
    qed
  qed
qed

text \<open>The \<open>except\<close> clause after a try block whose calls are known.\<close>

lemma except_shape:
  assumes tr: "s1 = s\<lparr>trace := trace s @ ev\<rparr>"
      "((\<exists>x. r1 = Raised x) \<and> try_fail k d ev) \<or> (\<exists>raw. d = Some raw \<and> try_ok k raw r1 ev)"
    and exc: "(case (r1, s1) of (Raised x, s1) \<Rightarrow> send_error_response e s1 | r \<Rightarrow> r) = (r, s')"
  shows "\<exists>ev'. s' = s\<lparr>trace := trace s @ ev'\<rparr> \<and> handled k d r ev'"
proof (cases "\<exists>x. r1 = Raised x")
  case True
  then obtain x where x: "r1 = Raised x" by blast
  with tr(2) have tf: "try_fail k d ev" using try_ok_not_raised by blast
  define res where
    "res = map_option (min (length error_response))
             (send_result e (length (trace s1)) Client error_response)"
  have "send_error_response e s1 =
          (if res = None then Raised OSError else Returned,
           s\<lparr>trace := trace s @ (ev @ [Send Client error_response res])\<rparr>)"
    unfolding res_def using tr(1)
    by (cases "send_result e (length (trace s1)) Client error_response")
       (simp_all add: send_error_response_def prim_defs)
  with exc x have "s' = s\<lparr>trace := trace s @ (ev @ [Send Client error_response res])\<rparr>"
    and "r = (if res = None then Raised OSError else Returned)"
    by simp_all
  with tf show ?thesis unfolding handled_def by blast
next
  case False
  with exc have "r = r1" "s' = s1" by (cases r1; auto)+
  with tr False show ?thesis unfolding handled_def by blast
qed

lemma handle_https_shape:
  assumes "handle_https fuel lib e url s = (r, s')"
  shows "\<exists>ev. s' = s\<lparr>trace := trace s @ ev\<rparr> \<and> handled Client (Some response_200) r ev"
proof -
  obtain r1 s1 where t: "https_try fuel lib e url s = (r1, s1)"
    by (cases "https_try fuel lib e url s")
  from https_try_shape [OF t] obtain ev where
    ev: "s1 = s\<lparr>trace := trace s @ ev\<rparr>"
        "((\<exists>x. r1 = Raised x) \<and> try_fail Client (Some response_200) ev) \<or>
            try_ok Client response_200 r1 ev" by blast
  from ev(2) have "((\<exists>x. r1 = Raised x) \<and> try_fail Client (Some response_200) ev) \<or>
     (\<exists>raw. Some response_200 = Some raw \<and> try_ok Client raw r1 ev)" by simp
  moreover from assms t
  have "(case (r1, s1) of (Raised x, s1) \<Rightarrow> send_error_response e s1 | r \<Rightarrow> r) = (r, s')"
    by (simp add: handle_https_def)
  ultimately show ?thesis using ev(1) by (intro except_shape)
qed

lemma handle_http_shape:
  assumes "handle_http fuel lib e request url s = (r, s')"
  shows "\<exists>ev. s' = s\<lparr>trace := trace s @ ev\<rparr> \<and> handled Upstream (utf8_encode request) r ev"
proof -
  obtain r1 s1 where t: "http_try fuel lib e request url s = (r1, s1)"
    by (cases "http_try fuel lib e request url s")
  from http_try_shape [OF t] obtain ev where
    ev: "s1 = s\<lparr>trace := trace s @ ev\<rparr>"
        "((\<exists>x. r1 = Raised x) \<and> try_fail Upstream (utf8_encode request) ev) \<or>
            (\<exists>raw. utf8_encode request = Some raw \<and> try_ok Upstream raw r1 ev)" by blast
  from assms t
  have "(case (r1, s1) of (Raised x, s1) \<Rightarrow> send_error_response e s1 | r \<Rightarrow> r) = (r, s')"
    by (simp add: handle_http_def)
  with ev show ?thesis by (intro except_shape)
qed

lemma split_from_nonempty: "split_from sep acc s \<noteq> []"
  by (induction sep acc s rule: split_from.induct) simp_all

lemma split_str_nonempty: "split_str sep s \<noteq> []"
  by (simp add: split_str_def split_from_nonempty)

lemma client_try_shape:
  assumes "client_try fuel lib e s = (r, s')"
  defines "r0 \<equiv> recv_result e (Suc (length (trace s))) Client"
  shows "\<exists>ev. session r0 r ev \<and>
           s' = s\<lparr>total_requests := total_requests s + (if counted r0 then 1 else 0),
                  trace := trace s @ [SetTimeout Client 30, Recv Client (buffer_size s) r0] @ ev\<rparr>"
proof -
  define s1 where "s1 = s\<lparr>trace := trace s @ [SetTimeout Client 30, Recv Client (buffer_size s) r0]\<rparr>"
  have rc: "sock_recv e Client (settimeout Client 30 s) = (r0, s1)"
    by (simp add: prim_defs r0_def s1_def)
  have stop: ?thesis if "session r0 r []" "s' = s1\<lparr>total_requests := total_requests s + (if counted r0 then 1 else 0)\<rparr>"
  proof -
    from that have "session r0 r [] \<and>
           s' = s\<lparr>total_requests := total_requests s + (if counted r0 then 1 else 0),
                  trace := trace s @ [SetTimeout Client 30, Recv Client (buffer_size s) r0] @ []\<rparr>"
      by (simp add: s1_def)
    then show ?thesis by blast
  qed
  show ?thesis
  proof (cases r0)
    case None
    with assms(1) rc have "r = Raised OSError" "s' = s1"
      by (simp_all add: client_try_def)
    with None show ?thesis by (intro stop) (simp_all add: session_def counted_def s1_def)
  next
    case (Some d)
    show ?thesis
    proof (cases "utf8_decode d = []")
      case True
      with Some assms(1) rc have "r = Returned" "s' = s1"
        by (simp_all add: client_try_def)
      with Some True show ?thesis by (intro stop) (simp_all add: session_def counted_def s1_def)
    next
      case False
      define s2 where "s2 = s1\<lparr>total_requests := total_requests s1 + 1\<rparr>"
      obtain fl ls where fl: "split_str crlf (utf8_decode d) = fl # ls"
        using split_str_nonempty [of crlf "utf8_decode d"] by (cases "split_str crlf (utf8_decode d)") auto
      have cnt: "counted r0" using Some False by (simp add: counted_def)
      show ?thesis
      proof (cases "\<exists>m url rest. split_str (ascii '' '') fl = m # url # rest")
        case notarget: False
        with Some False fl assms(1) rc have "r = Raised IndexError" "s' = s2"
          by (auto simp add: client_try_def s2_def Let_def split: list.splits)
        moreover from notarget Some False fl have "session r0 r []" if "r = Raised IndexError"
          using that by (auto simp: session_def split: list.splits)
        ultimately show ?thesis using cnt by (intro stop) (simp_all add: s2_def s1_def)
      next
        case True
        then obtain m url rest where sp: "split_str (ascii '' '') fl = m # url # rest" by blast
        have lift: ?thesis if "s' = s2\<lparr>trace := trace s2 @ ev\<rparr>" "session r0 r ev" for ev
        proof -
          from that cnt have "session r0 r ev \<and>
           s' = s\<lparr>total_requests := total_requests s + (if counted r0 then 1 else 0),
                  trace := trace s @ [SetTimeout Client 30, Recv Client (buffer_size s) r0] @ ev\<rparr>"
            by (simp add: s2_def s1_def)
          then show ?thesis by blast
        qed
        show ?thesis
        proof (cases "startswith fl (ascii ''CONNECT'')")
          case connect: True
          with Some False fl sp assms(1) rc have "handle_https fuel lib e url s2 = (r, s')"
            by (simp add: client_try_def s2_def Let_def)
          from handle_https_shape [OF this] obtain ev where
            ev: "s' = s2\<lparr>trace := trace s2 @ ev\<rparr>" "handled Client (Some response_200) r ev" by blast
          from ev(2) Some False fl sp connect have "session r0 r ev"
            by (simp add: session_def)
          with ev(1) show ?thesis by (rule lift)
        next
          case other: False
          with Some False fl sp assms(1) rc have "handle_http fuel lib e (utf8_decode d) url s2 = (r, s')"
            by (simp add: client_try_def s2_def Let_def)
          from handle_http_shape [OF this] obtain ev where
            ev: "s' = s2\<lparr>trace := trace s2 @ ev\<rparr>" "handled Upstream (utf8_encode (utf8_decode d)) r ev" by blast
          from ev(2) Some False fl sp other have "session r0 r ev"
            by (simp add: session_def)
          with ev(1) show ?thesis by (rule lift)
        qed
      qed
    qed
  qed
qed

lemma handle_client_shape:
  assumes "handle_client fuel lib e s = (r, s')"
  defines "r0 \<equiv> recv_result e (Suc (length (trace s))) Client"
  shows "\<exists>r1 ev c. session r0 r1 ev \<and>
     (if r1 = Running
      then r = Running \<and>
           s' = s\<lparr>total_requests := total_requests s + (if counted r0 then 1 else 0),
                  active_connections := active_connections s + 1,
                  trace := trace s @ [SetTimeout Client 30, Recv Client (buffer_size s) r0] @ ev\<rparr>
      else r = Returned \<and>
           s' = s\<lparr>total_requests := total_requests s + (if counted r0 then 1 else 0),
                  errors := errors s + (if raised r1 then 1 else 0),
                  trace := trace s @ [SetTimeout Client 30, Recv Client (buffer_size s) r0] @ ev
                             @ [Close Client c]\<rparr>)"
proof -
  define si where "si = s\<lparr>active_connections := active_connections s + 1\<rparr>"
  obtain r1 s1 where ct: "client_try fuel lib e si = (r1, s1)"
    by (cases "client_try fuel lib e si")
  from client_try_shape [OF ct] obtain ev where
    ses: "session r0 r1 ev" and
    s1: "s1 = si\<lparr>total_requests := total_requests si + (if counted r0 then 1 else 0),
                  trace := trace si @ [SetTimeout Client 30, Recv Client (buffer_size si) r0] @ ev\<rparr>"
    unfolding r0_def si_def by auto
  show ?thesis
  proof (cases "r1 = Running")
    case True
    with assms(1) ct have "r = Running" "s' = s1"
      by (simp_all add: handle_client_def si_def)
    with True s1 ses have "session r0 r1 ev \<and>
     (if r1 = Running
      then r = Running \<and>
           s' = s\<lparr>total_requests := total_requests s + (if counted r0 then 1 else 0),
                  active_connections := active_connections s + 1,
                  trace := trace s @ [SetTimeout Client 30, Recv Client (buffer_size s) r0] @ ev\<rparr>
      else r = Returned \<and>
           s' = s\<lparr>total_requests := total_requests s + (if counted r0 then 1 else 0),
                  errors := errors s + (if raised r1 then 1 else 0),
                  trace := trace s @ [SetTimeout Client 30, Recv Client (buffer_size s) r0] @ ev
                             @ [Close Client True]\<rparr>)"
      by (simp add: si_def)
    then show ?thesis by blast
  next
    case False
    define c where "c = close_ok e (length (trace s1)) Client"
    from False assms(1) ct have r: "r = Returned"
      by (cases r1; simp add: handle_client_def si_def Let_def)
    from False assms(1) ct have "s' = (let s2 = (case r1 of Raised x \<Rightarrow> s1\<lparr>errors := errors s1 + 1\<rparr> | _ \<Rightarrow> s1);
               s3 = close_quietly e Client s2
           in s3\<lparr>active_connections := active_connections s3 - 1\<rparr>)"
      by (cases r1; simp add: handle_client_def si_def Let_def)
    with s1 False have "s' = s\<lparr>total_requests := total_requests s + (if counted r0 then 1 else 0),
                  errors := errors s + (if raised r1 then 1 else 0),
                  trace := trace s @ [SetTimeout Client 30, Recv Client (buffer_size s) r0] @ ev
                             @ [Close Client c]\<rparr>"
      by (cases r1; simp add: si_def prim_defs c_def)
    with False r ses have "session r0 r1 ev \<and>
     (if r1 = Running
      then r = Running \<and>
           s' = s\<lparr>total_requests := total_requests s + (if counted r0 then 1 else 0),
                  active_connections := active_connections s + 1,
                  trace := trace s @ [SetTimeout Client 30, Recv Client (buffer_size s) r0] @ ev\<rparr>
      else r = Returned \<and>
           s' = s\<lparr>total_requests := total_requests s + (if counted r0 then 1 else 0),
                  errors := errors s + (if raised r1 then 1 else 0),
                  trace := trace s @ [SetTimeout Client 30, Recv Client (buffer_size s) r0] @ ev
                             @ [Close Client c]\<rparr>)"
      by simp
    then show ?thesis by blast
  qed
qed

lemma new_events_frame [simp]:
  "new_events s (s\<lparr>total_requests := t, trace := trace s @ ev\<rparr>) = ev"
  "new_events s (s\<lparr>total_requests := t, errors := x, trace := trace s @ ev\<rparr>) = ev"
  "new_events s (s\<lparr>total_requests := t, active_connections := a, trace := trace s @ ev\<rparr>) = ev"
  by (simp_all add: new_events_def)

lemma relay_tail_io_or_close:
  assumes "relay_tail r rel" "x \<in> set rel"
  shows "is_io x \<or> (\<exists>c. x = Close Upstream c)"
  using assms open_evs_io relay_evs_io by (auto simp: relay_tail_def)

lemma relay_tail_no_client_close: "relay_tail r rel \<Longrightarrow> x \<in> set rel \<Longrightarrow> \<not> is_close Client x"
  using relay_tail_io_or_close [of r rel x] is_io_not_close [of x Client] by auto

lemma relay_tail_no_connect: "relay_tail r rel \<Longrightarrow> Connect h p b \<notin> set rel"
  using relay_tail_io_or_close [of r rel "Connect h p b"] by auto

lemma try_fail_no_client_close: "try_fail k d ev \<Longrightarrow> x \<in> set ev \<Longrightarrow> \<not> is_close Client x"
  by (auto simp: try_fail_def split: option.splits)

lemma try_ok_no_client_close: "try_ok k raw r ev \<Longrightarrow> x \<in> set ev \<Longrightarrow> \<not> is_close Client x"
  using relay_tail_no_client_close by (auto simp: try_ok_def)

lemma handled_no_client_close: "handled k d r ev \<Longrightarrow> x \<in> set ev \<Longrightarrow> \<not> is_close Client x"
  using try_fail_no_client_close try_ok_no_client_close by (auto simp: handled_def)

lemma session_cases:
  assumes "session r0 r ev"
  shows "(ev = [] \<and> r \<noteq> Running) \<or> handled Client (Some response_200) r ev \<or>
         (\<exists>d. handled Upstream d r ev)"
  using assms by (auto simp: session_def split: option.splits if_splits list.splits)

lemma session_no_client_close: "session r0 r ev \<Longrightarrow> x \<in> set ev \<Longrightarrow> \<not> is_close Client x"
  using session_cases [of r0 r ev] handled_no_client_close by auto

lemma try_fail_connect_failed:
  "try_fail k d pre \<Longrightarrow> Connect h p False \<in> set pre \<Longrightarrow>
     pre = [NewSocket True, SetTimeout Upstream 10, Connect h p False]"
  by (auto simp: try_fail_def split: option.splits)

lemma try_ok_no_failed_connect: "try_ok k raw r ev \<Longrightarrow> Connect h p False \<notin> set ev"
  using relay_tail_no_connect by (auto simp: try_ok_def)

lemma handled_connect_failed:
  assumes "handled k d r ev" "Connect h p False \<in> set ev"
  shows "\<exists>res. ev = [NewSocket True, SetTimeout Upstream 10, Connect h p False,
                     Send Client error_response res] \<and>
               r = (if res = None then Raised OSError else Returned)"
proof -
  from assms try_ok_no_failed_connect obtain pre res where
    pre: "try_fail k d pre" "ev = pre @ [Send Client error_response res]"
      "r = (if res = None then Raised OSError else Returned)"
    unfolding handled_def by blast
  with assms(2) have "Connect h p False \<in> set pre" by simp
  from try_fail_connect_failed [OF pre(1) this] pre(2,3) show ?thesis by simp
qed

lemma split_from_hd: "hd (split_from [c] acc s) = rev acc @ takeWhile (\<lambda>x. x \<noteq> c) s"
  by (induction s arbitrary: acc) (simp_all add: startswith_def)

lemma split_str_hd:
  assumes "split_str [c] s = m # rest"
  shows "m = takeWhile (\<lambda>x. x \<noteq> c) s"
  using split_from_hd [of c "[]" s] assms by (simp add: split_str_def)

lemma startswith_takeWhile:
  "c \<notin> set p \<Longrightarrow> startswith (takeWhile (\<lambda>x. x \<noteq> c) s) p = startswith s p"
proof (induction p arbitrary: s)
  case Nil
  then show ?case by (simp add: startswith_def)
next
  case (Cons a p)
  then have IH: "startswith (takeWhile (\<lambda>x. x \<noteq> c) t) p = startswith t p" for t by simp
  show ?case
  proof (cases s)
    case Nil
    then show ?thesis by (simp add: startswith_def)
  next
    case (Cons x xs)
    with Cons.prems IH [of xs] show ?thesis by (auto simp: startswith_def)
  qed
qed

lemma method_prefix:
  assumes "split_str (ascii '' '') first_line = m # rest"
  shows "startswith first_line (ascii ''CONNECT'') = startswith m (ascii ''CONNECT'')"
proof -
  have sp: "ascii '' '' = [32]" by (simp add: ascii_def)
  have "m = takeWhile (\<lambda>x. x \<noteq> 32) first_line"
    using assms split_str_hd [of 32 first_line m rest] by (simp add: sp)
  moreover have "32 \<notin> set (ascii ''CONNECT'')" by (simp add: ascii_def)
  ultimately show ?thesis using startswith_takeWhile [of 32 "ascii ''CONNECT''" first_line]
    by simp
qed

lemma relay_tail_sent: "relay_tail r rel \<Longrightarrow> sent_to k rel = received_from (other k) rel"
  using relay_evs_sent open_evs_relay by (auto simp: relay_tail_def)

lemma try_fail_connected:
  assumes "try_fail k d pre" "Connect h p True \<in> set pre"
  shows "pre = [NewSocket True, SetTimeout Upstream 10, Connect h p True] @
               (case d of None \<Rightarrow> [] | Some raw \<Rightarrow> [Send k raw None])"
  using assms by (auto simp: try_fail_def split: option.splits)

lemma try_ok_connected:
  assumes "try_ok k raw r ev" "Connect h p True \<in> set ev"
  shows "\<exists>sent rel.
           ev = [NewSocket True, SetTimeout Upstream 10, Connect h p True, Send k raw (Some sent)] @ rel
           \<and> relay_tail r rel"
  using assms relay_tail_no_connect by (auto simp: try_ok_def)

lemma handled_connected:
  assumes "handled k d r ev" "Connect h p True \<in> set ev"
  shows "(\<exists>res. ev = [NewSocket True, SetTimeout Upstream 10, Connect h p True] @
                    (case d of None \<Rightarrow> [] | Some raw \<Rightarrow> [Send k raw None]) @
                    [Send Client error_response res] \<and>
               r = (if res = None then Raised OSError else Returned)) \<or>
         (\<exists>raw sent rel. d = Some raw \<and>
               ev = [NewSocket True, SetTimeout Upstream 10, Connect h p True,
                     Send k raw (Some sent)] @ rel \<and>
               relay_tail r rel)"
  using assms(1) unfolding handled_def
proof (elim disjE exE conjE)
  fix pre res
  assume a: "try_fail k d pre" "ev = pre @ [Send Client error_response res]"
    "r = (if res = None then Raised OSError else Returned)"
  with assms(2) have "Connect h p True \<in> set pre" by simp
  from try_fail_connected [OF a(1) this] a(2,3) show ?thesis by auto
next
  fix raw
  assume a: "d = Some raw" "try_ok k raw r ev"
  from try_ok_connected [OF a(2) assms(2)] a(1) show ?thesis by blast
qed

lemma session_tunnel:
  assumes "utf8_decode d \<noteq> []"
    and "split_str crlf (utf8_decode d) = first_line # ls"
    and "split_str (ascii '' '') first_line = m # url # rest"
    and "startswith first_line (ascii ''CONNECT'')"
  shows "session (Some d) r ev = handled Client (Some response_200) r ev"
  using assms by (simp add: session_def)


text \<open>The calls of the handler after a first read that returned \<open>d\<close>.\<close>

lemma handle_client_events:
  assumes "handle_client fuel lib e s = (r, s')"
    and "recv_result e (Suc (length (trace s))) Client = Some d"
  shows "\<exists>r1 ev c. session (Some d) r1 ev \<and>
           new_events s s' = [SetTimeout Client 30, Recv Client (buffer_size s) (Some d)] @ ev @
              (if r1 = Running then [] else [Close Client c]) \<and>
           r = (if r1 = Running then Running else Returned)"
proof -
  from handle_client_shape [OF assms(1), unfolded assms(2)] obtain r1 ev c where
    ses: "session (Some d) r1 ev" and
    sh: "if r1 = Running
      then r = Running \<and>
           s' = s\<lparr>total_requests := total_requests s + (if counted (Some d) then 1 else 0),
                  active_connections := active_connections s + 1,
                  trace := trace s @ [SetTimeout Client 30, Recv Client (buffer_size s) (Some d)] @ ev\<rparr>
      else r = Returned \<and>
           s' = s\<lparr>total_requests := total_requests s + (if counted (Some d) then 1 else 0),
                  errors := errors s + (if raised r1 then 1 else 0),
                  trace := trace s @ [SetTimeout Client 30, Recv Client (buffer_size s) (Some d)] @ ev
                     @ [Close Client c]\<rparr>"
    by blast
  show ?thesis
  proof (cases "r1 = Running")
    case True
    with sh ses have "session (Some d) r1 ev \<and>
           new_events s s' = [SetTimeout Client 30, Recv Client (buffer_size s) (Some d)] @ ev @
              (if r1 = Running then [] else [Close Client c]) \<and>
           r = (if r1 = Running then Running else Returned)" by simp
    then show ?thesis by blast
  next
    case False
    with sh ses have "session (Some d) r1 ev \<and>
           new_events s s' = [SetTimeout Client 30, Recv Client (buffer_size s) (Some d)] @ ev @
              (if r1 = Running then [] else [Close Client c]) \<and>
           r = (if r1 = Running then Running else Returned)" by simp
    then show ?thesis by blast
  qed
qed

lemma handled_tunnel_upstream:
  assumes "handled Client d r ev"
  shows "sent_to Upstream ev = received_from Client ev"
  using assms unfolding handled_def
proof (elim disjE exE conjE)
  fix pre res
  assume "try_fail Client d pre" "ev = pre @ [Send Client error_response res]"
  then show ?thesis by (auto simp: try_fail_def split: option.splits)
next
  fix raw
  assume "try_ok Client raw r ev"
  then obtain h p sent rel where
    "ev = [NewSocket True, SetTimeout Upstream 10, Connect h p True, Send Client raw (Some sent)] @ rel"
    "relay_tail r rel" unfolding try_ok_def by blast
  with relay_tail_sent [of r rel Upstream] show ?thesis by simp
qed

lemma utf8_decode_Nil: "utf8_decode [] = []"
  by (simp add: utf8_decode_def)

text \<open>When every \<open>send\<close> accepted all it was given, the bytes accepted are the data given.\<close>

lemma written_to_append [simp]: "written_to k (xs @ ys) = written_to k xs @ written_to k ys"
  by (simp add: written_to_def)

lemma written_to_Cons [simp]: "written_to k (x # xs) = wrote k x @ written_to k xs"
  by (simp add: written_to_def)

lemma written_to_Nil [simp]: "written_to k [] = []"
  by (simp add: written_to_def)




section \<open>Example runs\<close>

lemmas run_defs = handle_client_def client_try_def handle_https_def https_try_def
  handle_http_def http_try_def http_target_def send_error_response_def relay_data_def prim_defs
  utf8_decode_def utf8_encode_def split_str_def split_once_def startswith_def ascii_def
  crlf_def crlf_bytes_def friendly_def start_state_def simple_lib_def simple_int_def
  simple_urlparse_def response_200_def error_response_def py_lower_def lower_cp_def
  py_strip_def is_space_def cont_def enc_cp_def script_def connect_request_def

lemma run_connect:
  "handle_client 2 simple_lib (friendly (script connect_request ''hello'')) start_state =
     (Returned, start_state\<lparr>total_requests := 1, trace :=
        [SetTimeout Client 30, Recv Client 8192 (Some connect_request),
         NewSocket True, SetTimeout Upstream 10,
         Connect (Some (ascii ''example.com'')) 443 True,
         Send Client response_200 (Some (length response_200)),
         Select (Some ([Client, Upstream], [])),
         Recv Client 8192 (Some ''hello''), Send Upstream ''hello'' (Some (length ''hello'')),
         Recv Upstream 8192 (Some []), Close Upstream True, Close Client True]\<rparr>)"
  by (simp add: run_defs numeral_2_eq_2)

lemma run_connect_final:
  "handle_client 2 simple_lib (friendly (script connect_request ''hello'')) start_state =
     (Returned, connect_final)"
  using run_connect by (simp add: connect_final_def)

lemma run_refused:
  "handle_client 0 simple_lib (refusing (friendly (script connect_request []))) start_state =
     (Returned, refused_final)"
  by (simp add: run_defs refusing_def refused_final_def)

lemma run_refused_deaf:
  "handle_client 0 simple_lib (deaf (refusing (friendly (script connect_request [])))) start_state =
     (Returned, refused_deaf_final)"
  by (simp add: run_defs refusing_def deaf_def refused_deaf_final_def)

lemma run_bare_get:
  "handle_client 0 simple_lib (friendly (script bare_get [])) start_state = (Returned, bare_get_final)"
  by (simp add: run_defs bare_get_def bare_get_final_def)

lemma bare_get_parts:
  "utf8_decode bare_get \<noteq> []"
  "split_str crlf (utf8_decode bare_get) = [ascii ''GET / HTTP/1.1'', [], []]"
  "split_str (ascii '' '') (ascii ''GET / HTTP/1.1'') = [ascii ''GET'', ascii ''/'', ascii ''HTTP/1.1'']"
  "\<not> startswith (ascii ''GET / HTTP/1.1'') (ascii ''CONNECT'')"
  "\<not> startswith (ascii ''/'') (ascii ''http://'')"
  "filter (\<lambda>line. startswith (py_lower line) (ascii ''host:''))
           (split_str crlf (utf8_decode bare_get)) = []"
  by (simp_all add: run_defs bare_get_def)

lemma connect_request_parts:
  "recv_result (friendly (script connect_request ''hello'')) (Suc (length (trace start_state))) Client
     = Some connect_request"
  "utf8_decode connect_request \<noteq> []"
  "split_str crlf (utf8_decode connect_request) = [ascii ''CONNECT example.com:443 HTTP/1.1'', [], []]"
  "split_str (ascii '' '') (ascii ''CONNECT example.com:443 HTTP/1.1'')
     = [ascii ''CONNECT'', ascii ''example.com:443'', ascii ''HTTP/1.1'']"
  "startswith (ascii ''CONNECT example.com:443 HTTP/1.1'') (ascii ''CONNECT'')"
  by (simp_all add: run_defs)

lemma run_connectx:
  "handle_client 2 simple_lib (friendly (script connectx_request ''hello'')) start_state =
     (Returned, connectx_final)"
  by (simp add: run_defs numeral_2_eq_2 connectx_request_def connectx_final_def)






section \<open>The relay engine\<close>

text \<open>
  C8. \<open>relay_data\<close> never raises. It never closes the client socket. When it has ended,
  its last call closed the upstream socket, and that is the only close. A read of zero
  bytes, from either socket, is followed by that close and by nothing else: no further
  read or write in either direction.
\<close>

theorem relay_data_closes_upstream_only:
  assumes "relay_data fuel e s = (r, s')"
  shows "(r = Returned \<or> r = Running) \<and>
         trace s' = trace s @ new_events s s' \<and>
         (\<forall>ev \<in> set (new_events s s'). \<not> is_close Client ev) \<and>
         (r = Running \<longrightarrow> (\<forall>ev \<in> set (new_events s s'). \<not> is_close Upstream ev)) \<and>
         (r = Returned \<longrightarrow>
            new_events s s' \<noteq> [] \<and> is_close Upstream (last (new_events s s')) \<and>
            (\<forall>ev \<in> set (butlast (new_events s s')). \<not> is_close Upstream ev)) \<and>
         (\<forall>i k n. i < length (new_events s s') \<and> new_events s s' ! i = Recv k n (Some []) \<longrightarrow>
            r = Returned \<and> Suc (Suc i) = length (new_events s s'))"
proof -
  from relay_data_tail [OF assms] obtain ev where
    s': "s' = s\<lparr>trace := trace s @ ev\<rparr>" and tail: "relay_tail r ev"
    by blast
  have ne: "new_events s s' = ev" using s' by simp
  from tail consider
      (running) "r = Running" "open_evs ev"
    | (returned) rel c where "r = Returned" "ev = rel @ [Close Upstream c]" "relay_evs rel"
    by (auto simp: relay_tail_def)
  then have "(r = Returned \<or> r = Running) \<and>
         (\<forall>x \<in> set ev. \<not> is_close Client x) \<and>
         (r = Running \<longrightarrow> (\<forall>x \<in> set ev. \<not> is_close Upstream x)) \<and>
         (r = Returned \<longrightarrow>
            ev \<noteq> [] \<and> is_close Upstream (last ev) \<and>
            (\<forall>x \<in> set (butlast ev). \<not> is_close Upstream x)) \<and>
         (\<forall>i k n. i < length ev \<and> ev ! i = Recv k n (Some []) \<longrightarrow>
            r = Returned \<and> Suc (Suc i) = length ev)"
  proof cases
    case running
    have "\<not> is_close k x" if "x \<in> set ev" for x k
      using open_evs_io [OF running(2) that] by (rule is_io_not_close)
    moreover have "ev ! i \<noteq> Recv k n (Some [])" if "i < length ev" for i k n
      using open_evs_no_zero [OF running(2), of k n] that nth_mem by metis
    ultimately show ?thesis using running(1) by auto
  next
    case returned
    have io: "\<not> is_close k x" if "x \<in> set rel" for x k
      using relay_evs_io [OF returned(3) that] by (rule is_io_not_close)
    have zero: "Suc (Suc i) = length ev" if "i < length ev" "ev ! i = Recv k n (Some [])" for i k n
    proof (cases "i < length rel")
      case True
      with that returned(2) have "rel ! i = Recv k n (Some [])"
        by (simp add: nth_append)
      from relay_evs_zero_last [OF returned(3) True this] returned(2) show ?thesis by simp
    next
      case False
      with that returned(2) have "i = length rel" by simp
      with that returned(2) show ?thesis by simp
    qed
    show ?thesis using returned(1,2) io zero by auto
  qed
  with ne s' show ?thesis by simp
qed

theorem relay_data_closes_upstream_only_witness:
  "relay_data 2 (friendly (\<lambda>n. if n = 1 then Some ''ping'' else Some [])) start_state =
     (Returned, start_state\<lparr>trace :=
        [Select (Some ([Client, Upstream], [])), Recv Client 8192 (Some ''ping''),
         Send Upstream ''ping'' (Some (length ''ping'')), Recv Upstream 8192 (Some []), Close Upstream True]\<rparr>) \<and>
   is_close Upstream (last (new_events start_state
     (start_state\<lparr>trace :=
        [Select (Some ([Client, Upstream], [])), Recv Client 8192 (Some ''ping''),
         Send Upstream ''ping'' (Some (length ''ping'')), Recv Upstream 8192 (Some []), Close Upstream True]\<rparr>)))"
proof -
  have run: "relay_data 2 (friendly (\<lambda>n. if n = 1 then Some ''ping'' else Some [])) start_state =
     (Returned, start_state\<lparr>trace :=
        [Select (Some ([Client, Upstream], [])), Recv Client 8192 (Some ''ping''),
         Send Upstream ''ping'' (Some (length ''ping'')), Recv Upstream 8192 (Some []), Close Upstream True]\<rparr>)"
    by (simp add: relay_data_def numeral_2_eq_2 prim_defs friendly_def start_state_def)
  from relay_data_closes_upstream_only [OF run] run show ?thesis
    by blast
qed

section \<open>The connection handler\<close>

text \<open>
  C7. When the first read from the client returns zero bytes, the handler returns after
  that read and the close of the client socket: nothing is written, and the error and
  total-request counters are unchanged (as is the active-connection counter, once the
  handler is done).
\<close>

theorem empty_read_is_silent:
  assumes "recv_result e (Suc (length (trace s))) Client = Some []"
  shows "handle_client fuel lib e s =
           (Returned, s\<lparr>trace := trace s @
              [SetTimeout Client 30, Recv Client (buffer_size s) (Some []),
               Close Client (close_ok e (Suc (Suc (length (trace s)))) Client)]\<rparr>)"
  using assms
  by (simp add: handle_client_def client_try_def prim_defs utf8_decode_def)

theorem empty_read_is_silent_witness:
  "recv_result (friendly (\<lambda>n. Some [])) (Suc (length (trace start_state))) Client = Some [] \<and>
   handle_client 0 simple_lib (friendly (\<lambda>n. Some [])) start_state =
     (Returned, start_state\<lparr>trace :=
        [SetTimeout Client 30, Recv Client 8192 (Some []), Close Client True]\<rparr>)"
  using empty_read_is_silent [of "friendly (\<lambda>n. Some [])" start_state 0 simple_lib]
  by (simp add: friendly_def start_state_def)

text \<open>
  C5. The handler never raises. When it has returned, the active-connection counter
  has its initial value again (incremented once, decremented once), the last call
  closed the client socket, and no earlier call did. While it is still relaying, the
  counter is one above its initial value and the client socket has not been closed.
  So a counter that starts non-negative stays non-negative.
\<close>

theorem handler_closes_and_decrements_once:
  assumes "handle_client fuel lib e s = (r, s')"
  shows "(r = Returned \<or> r = Running) \<and>
         (r = Returned \<longrightarrow>
            active_connections s' = active_connections s \<and>
            new_events s s' \<noteq> [] \<and> is_close Client (last (new_events s s')) \<and>
            (\<forall>x \<in> set (butlast (new_events s s')). \<not> is_close Client x)) \<and>
         (r = Running \<longrightarrow>
            active_connections s' = active_connections s + 1 \<and>
            (\<forall>x \<in> set (new_events s s'). \<not> is_close Client x)) \<and>
         (0 \<le> active_connections s \<longrightarrow> 0 \<le> active_connections s')"
proof -
  define r0 where "r0 = recv_result e (Suc (length (trace s))) Client"
  define pre where "pre = [SetTimeout Client 30, Recv Client (buffer_size s) r0]"
  from handle_client_shape [OF assms] obtain r1 ev c where
    ses: "session r0 r1 ev" and
    sh: "if r1 = Running
      then r = Running \<and>
           s' = s\<lparr>total_requests := total_requests s + (if counted r0 then 1 else 0),
                  active_connections := active_connections s + 1,
                  trace := trace s @ pre @ ev\<rparr>
      else r = Returned \<and>
           s' = s\<lparr>total_requests := total_requests s + (if counted r0 then 1 else 0),
                  errors := errors s + (if raised r1 then 1 else 0),
                  trace := trace s @ pre @ ev @ [Close Client c]\<rparr>"
    unfolding r0_def pre_def by auto
  have nc: "\<not> is_close Client x" if "x \<in> set (pre @ ev)" for x
    using that session_no_client_close [OF ses] by (auto simp: pre_def)
  show ?thesis
  proof (cases "r1 = Running")
    case True
    with sh have "r = Running" and "active_connections s' = active_connections s + 1"
      and "new_events s s' = pre @ ev" by simp_all
    with nc show ?thesis by simp
  next
    case False
    with sh have "r = Returned" and "active_connections s' = active_connections s"
      and "new_events s s' = (pre @ ev) @ [Close Client c]" by simp_all
    with nc show ?thesis by (simp del: append_assoc)
  qed
qed

theorem handler_closes_and_decrements_once_witness:
  "handle_client 2 simple_lib (friendly (script connect_request ''hello'')) start_state =
     (Returned, connect_final) \<and>
   active_connections connect_final = active_connections start_state \<and>
   new_events start_state connect_final \<noteq> [] \<and>
   is_close Client (last (new_events start_state connect_final))"
  using handler_closes_and_decrements_once [OF run_connect_final] run_connect_final by blast

text \<open>
  C1, as the code has it. When the connect to the upstream fails, the handler writes
  exactly the 500 response to the client (nothing was written to the client before),
  then closes the client socket and returns. The error counter is incremented, by
  exactly 1, only when that write fails; it is unchanged when the write succeeds.
\<close>

theorem failed_connect_sends_500:
  assumes "handle_client fuel lib e s = (r, s')"
    and "Connect h p False \<in> set (new_events s s')"
  shows "r = Returned \<and>
         (\<exists>pre res c. new_events s s' =
                        pre @ [Connect h p False, Send Client error_response res, Close Client c] \<and>
                      sent_to Client pre = [] \<and>
                      errors s' = errors s + (if res = None then 1 else 0))"
proof -
  define r0 where "r0 = recv_result e (Suc (length (trace s))) Client"
  define pre where "pre = [SetTimeout Client 30, Recv Client (buffer_size s) r0]"
  from handle_client_shape [OF assms(1)] obtain r1 ev c where
    ses: "session r0 r1 ev" and
    sh: "if r1 = Running
      then r = Running \<and>
           s' = s\<lparr>total_requests := total_requests s + (if counted r0 then 1 else 0),
                  active_connections := active_connections s + 1,
                  trace := trace s @ pre @ ev\<rparr>
      else r = Returned \<and>
           s' = s\<lparr>total_requests := total_requests s + (if counted r0 then 1 else 0),
                  errors := errors s + (if raised r1 then 1 else 0),
                  trace := trace s @ pre @ ev @ [Close Client c]\<rparr>"
    unfolding r0_def pre_def by auto
  from sh have "new_events s s' = pre @ ev \<or> new_events s s' = pre @ ev @ [Close Client c]"
    by (cases "r1 = Running") simp_all
  with assms(2) have inev: "Connect h p False \<in> set ev"
    by (auto simp: pre_def)
  then have "ev \<noteq> []" by auto
  with session_cases [OF ses] obtain k d where "handled k d r1 ev" by blast
  from handled_connect_failed [OF this inev] obtain res where
    ev: "ev = [NewSocket True, SetTimeout Upstream 10, Connect h p False,
               Send Client error_response res]"
    and r1: "r1 = (if res = None then Raised OSError else Returned)" by blast
  from r1 have nr: "r1 \<noteq> Running" and rs: "raised r1 \<longleftrightarrow> res = None"
    by (auto split: if_splits)
  let ?pre = "pre @ [NewSocket True, SetTimeout Upstream 10]"
  from sh nr rs ev have "r = Returned"
    and "new_events s s' = ?pre @ [Connect h p False, Send Client error_response res, Close Client c]"
    and "errors s' = errors s + (if res = None then 1 else 0)"
    by simp_all
  moreover have "sent_to Client ?pre = []" by (simp add: pre_def)
  ultimately show ?thesis by blast
qed

theorem failed_connect_sends_500_witness:
  "handle_client 0 simple_lib (deaf (refusing (friendly (script connect_request [])))) start_state =
     (Returned, refused_deaf_final) \<and>
   Connect (Some (ascii ''example.com'')) 443 False \<in> set (new_events start_state refused_deaf_final) \<and>
   (\<exists>pre res c. new_events start_state refused_deaf_final =
        pre @ [Connect (Some (ascii ''example.com'')) 443 False, Send Client error_response res,
               Close Client c] \<and>
      sent_to Client pre = [] \<and>
      errors refused_deaf_final = errors start_state + (if res = None then 1 else 0))"
proof -
  have mem: "Connect (Some (ascii ''example.com'')) 443 False
               \<in> set (new_events start_state refused_deaf_final)"
    by (simp add: refused_deaf_final_def start_state_def new_events_def)
  from failed_connect_sends_500 [OF run_refused_deaf mem] run_refused_deaf mem
  show ?thesis by blast
qed

text \<open>
  The claim as stated fails: a refused connect followed by a successful write of the 500
  response leaves the error counter unchanged.
\<close>

theorem failed_connect_error_count_counterexample:
  "handle_client 0 simple_lib (refusing (friendly (script connect_request []))) start_state =
     (Returned, refused_final) \<and>
   Connect (Some (ascii ''example.com'')) 443 False \<in> set (new_events start_state refused_final) \<and>
   errors refused_final \<noteq> errors start_state + 1"
  using run_refused by (simp add: refused_final_def start_state_def new_events_def)

text \<open>
  C2, as the code has it. A request that is not a CONNECT, whose target does not start
  with \<open>http://\<close> and that has no line starting with \<open>host:\<close> (in any case) gets the
  500 response: the handler writes it and closes. The error counter is incremented only
  when that write fails.
\<close>

theorem missing_host_sends_500:
  assumes "recv_result e (Suc (length (trace s))) Client = Some d"
    and "utf8_decode d \<noteq> []"
    and "split_str crlf (utf8_decode d) = first_line # ls"
    and "split_str (ascii '' '') first_line = m # url # rest"
    and "\<not> startswith first_line (ascii ''CONNECT'')"
    and "\<not> startswith url (ascii ''http://'')"
    and "filter (\<lambda>line. startswith (py_lower line) (ascii ''host:''))
           (split_str crlf (utf8_decode d)) = []"
  shows "handle_client fuel lib e s =
     (Returned,
      s\<lparr>total_requests := total_requests s + 1,
        errors := errors s +
          (if send_result e (Suc (Suc (length (trace s)))) Client error_response = None
           then 1 else 0),
        trace := trace s @
          [SetTimeout Client 30, Recv Client (buffer_size s) (Some d),
           Send Client error_response
             (map_option (min (length error_response))
                (send_result e (Suc (Suc (length (trace s)))) Client error_response)),
           Close Client (close_ok e (Suc (Suc (Suc (length (trace s))))) Client)]\<rparr>)"
proof -
  from assms(3,7) have nohost:
    "filter (\<lambda>line. startswith (py_lower line) (ascii ''host:'')) (first_line # ls) = []"
    by simp
  have tgt: "http_target lib (utf8_decode d) url = Inl HostNotFound"
    using assms(3,6) nohost by (simp add: http_target_def Let_def del: filter.simps)
  show ?thesis
  proof (cases "send_result e (Suc (Suc (length (trace s)))) Client error_response")
    case None
    with assms(1-5) tgt show ?thesis
      by (simp add: handle_client_def client_try_def handle_http_def http_try_def
          send_error_response_def prim_defs)
  next
    case (Some n)
    with assms(1-5) tgt show ?thesis
      by (simp add: handle_client_def client_try_def handle_http_def http_try_def
          send_error_response_def prim_defs)
  qed
qed

theorem missing_host_sends_500_witness:
  "recv_result (deaf (friendly (script bare_get []))) (Suc (length (trace start_state))) Client
     = Some bare_get \<and>
   handle_client 0 simple_lib (deaf (friendly (script bare_get []))) start_state =
     (Returned, start_state\<lparr>total_requests := 1, errors := 1, trace :=
        [SetTimeout Client 30, Recv Client 8192 (Some bare_get),
         Send Client error_response None, Close Client True]\<rparr>)"
proof -
  have r: "recv_result (deaf (friendly (script bare_get []))) (Suc (length (trace start_state))) Client
     = Some bare_get"
    by (simp add: deaf_def friendly_def script_def start_state_def)
  from missing_host_sends_500 [OF r bare_get_parts(1-6), of 0 simple_lib] r
  show ?thesis by (simp add: deaf_def friendly_def start_state_def)
qed

text \<open>
  The claim as stated fails: for such a request a response is written, and the error
  counter is unchanged when that write succeeds.
\<close>

theorem missing_host_silent_counterexample:
  "handle_client 0 simple_lib (friendly (script bare_get [])) start_state = (Returned, bare_get_final) \<and>
   \<not> startswith (ascii ''/'') (ascii ''http://'') \<and>
   filter (\<lambda>line. startswith (py_lower line) (ascii ''host:''))
           (split_str crlf (utf8_decode bare_get)) = [] \<and>
   sent_to Client (new_events start_state bare_get_final) = [error_response] \<and>
   errors bare_get_final \<noteq> errors start_state + 1"
  using run_bare_get bare_get_parts(5,6)
  by (simp add: bare_get_final_def start_state_def new_events_def)

text \<open>
  C6, as the code has it. When the text decoded from the first read is not empty and its
  first line has no second space-separated token, the handler increments the request
  counter and the error counter by exactly 1 and closes without writing anything.
\<close>

theorem missing_target_counts_error:
  assumes "recv_result e (Suc (length (trace s))) Client = Some d"
    and "utf8_decode d \<noteq> []"
    and "split_str crlf (utf8_decode d) = first_line # ls"
    and "length (split_str (ascii '' '') first_line) < 2"
  shows "handle_client fuel lib e s =
     (Returned,
      s\<lparr>total_requests := total_requests s + 1, errors := errors s + 1,
        trace := trace s @
          [SetTimeout Client 30, Recv Client (buffer_size s) (Some d),
           Close Client (close_ok e (Suc (Suc (length (trace s)))) Client)]\<rparr>)"
proof (cases "split_str (ascii '' '') first_line")
  case Nil
  with assms(1-3) show ?thesis
    by (simp add: handle_client_def client_try_def prim_defs)
next
  case (Cons m rest)
  with assms(4) have "split_str (ascii '' '') first_line = [m]" by simp
  with assms(1-3) show ?thesis
    by (simp add: handle_client_def client_try_def prim_defs)
qed

theorem missing_target_counts_error_witness:
  "recv_result (friendly (script ''GET'' [])) (Suc (length (trace start_state))) Client = Some ''GET'' \<and>
   utf8_decode ''GET'' \<noteq> [] \<and>
   length (split_str (ascii '' '') (ascii ''GET'')) < 2 \<and>
   handle_client 0 simple_lib (friendly (script ''GET'' [])) start_state =
     (Returned, start_state\<lparr>total_requests := 1, errors := 1, trace :=
        [SetTimeout Client 30, Recv Client 8192 (Some ''GET''), Close Client True]\<rparr>)"
proof -
  have r: "recv_result (friendly (script ''GET'' [])) (Suc (length (trace start_state))) Client = Some ''GET''"
    by (simp add: friendly_def script_def start_state_def)
  have p: "utf8_decode ''GET'' \<noteq> []" "split_str crlf (utf8_decode ''GET'') = ascii ''GET'' # []"
    "length (split_str (ascii '' '') (ascii ''GET'')) < 2"
    by (simp_all add: run_defs)
  from missing_target_counts_error [OF r p, of 0 simple_lib] r p
  show ?thesis by (simp add: friendly_def start_state_def)
qed

text \<open>
  The claim as stated fails on a read that is not empty but decodes to the empty text:
  the handler returns as for an empty read, and no error is counted.
\<close>

theorem missing_target_undecodable_counterexample:
  "[CHR 0xFF] \<noteq> ([] :: bytes) \<and>
   length (split_str (ascii '' '') (hd (split_str crlf (utf8_decode [CHR 0xFF])))) < 2 \<and>
   handle_client 0 simple_lib (friendly (script [CHR 0xFF] [])) start_state =
     (Returned, start_state\<lparr>trace :=
        [SetTimeout Client 30, Recv Client 8192 (Some [CHR 0xFF]), Close Client True]\<rparr>) \<and>
   errors (snd (handle_client 0 simple_lib (friendly (script [CHR 0xFF] [])) start_state))
     \<noteq> errors start_state + 1"
  by (simp add: run_defs)

text \<open>
  C9, as the code has it. A request (with a target token) is handled by \<open>handle_https\<close>
  if and only if its method token starts with \<open>CONNECT\<close>, and by \<open>handle_http\<close>
  otherwise: the test is a prefix test on the first line, and \<open>CONNECT\<close> contains no
  space.
\<close>

theorem routing_by_method_prefix:
  assumes "recv_result e (Suc (length (trace s))) Client = Some d"
    and "utf8_decode d \<noteq> []"
    and "split_str crlf (utf8_decode d) = first_line # ls"
    and "split_str (ascii '' '') first_line = m # url # rest"
  shows "client_try fuel lib e s =
           (if startswith m (ascii ''CONNECT'')
            then handle_https fuel lib e url
                   (s\<lparr>trace := trace s @ [SetTimeout Client 30,
                                          Recv Client (buffer_size s) (Some d)],
                      total_requests := total_requests s + 1\<rparr>)
            else handle_http fuel lib e (utf8_decode d) url
                   (s\<lparr>trace := trace s @ [SetTimeout Client 30,
                                          Recv Client (buffer_size s) (Some d)],
                      total_requests := total_requests s + 1\<rparr>))"
  using assms method_prefix [OF assms(4)]
  by (simp add: client_try_def prim_defs)

theorem routing_by_method_prefix_witness:
  "client_try 2 simple_lib (friendly (script connect_request ''hello'')) start_state =
     handle_https 2 simple_lib (friendly (script connect_request ''hello'')) (ascii ''example.com:443'')
       (start_state\<lparr>trace := trace start_state @ [SetTimeout Client 30,
                     Recv Client (buffer_size start_state) (Some connect_request)],
          total_requests := total_requests start_state + 1\<rparr>)"
proof -
  have "startswith (ascii ''CONNECT'') (ascii ''CONNECT'')" by (simp add: startswith_def)
  with routing_by_method_prefix [OF connect_request_parts(1-4), of 2 simple_lib]
  show ?thesis by simp
qed

text \<open>
  The claim as stated fails: the method token \<open>CONNECTX\<close> is not \<open>CONNECT\<close>, and the
  request is tunnelled all the same (the client is sent the 200 response, the upstream
  only what the client sends afterwards).
\<close>

theorem routing_exact_method_counterexample:
  "hd (split_str (ascii '' '') (hd (split_str crlf (utf8_decode connectx_request))))
     = ascii ''CONNECTX'' \<and>
   ascii ''CONNECTX'' \<noteq> ascii ''CONNECT'' \<and>
   handle_client 2 simple_lib (friendly (script connectx_request ''hello'')) start_state =
     (Returned, connectx_final) \<and>
   sent_to Client (new_events start_state connectx_final) = [response_200] \<and>
   sent_to Upstream (new_events start_state connectx_final) = [''hello'']"
proof -
  have "hd (split_str (ascii '' '') (hd (split_str crlf (utf8_decode connectx_request))))
     = ascii ''CONNECTX''" "ascii ''CONNECTX'' \<noteq> ascii ''CONNECT''"
    by (simp_all add: run_defs connectx_request_def)
  moreover have "sent_to Client (new_events start_state connectx_final) = [response_200]"
    "sent_to Upstream (new_events start_state connectx_final) = [''hello'']"
    by (simp_all add: connectx_final_def start_state_def new_events_def)
  ultimately show ?thesis using run_connectx by simp
qed

text \<open>
  C4. For a CONNECT request whose connect succeeds, the first write of the handler, to
  any socket, is exactly the 200 response, to the client, right after the connect and
  before any call of the relay. When that write succeeds, everything written to the
  client afterwards is what was read from the upstream, and conversely; when it fails,
  the handler attempts the 500 response and closes.
\<close>

theorem connect_established_first:
  assumes "handle_client fuel lib e s = (r, s')"
    and "recv_result e (Suc (length (trace s))) Client = Some d"
    and "utf8_decode d \<noteq> []"
    and "split_str crlf (utf8_decode d) = first_line # ls"
    and "split_str (ascii '' '') first_line = m # url # rest"
    and "startswith first_line (ascii ''CONNECT'')"
    and "Connect h p True \<in> set (new_events s s')"
  shows "\<exists>res tl. new_events s s' =
            [SetTimeout Client 30, Recv Client (buffer_size s) (Some d), NewSocket True,
             SetTimeout Upstream 10, Connect h p True, Send Client response_200 res] @ tl \<and>
           (res \<noteq> None \<longrightarrow> sent_to Client tl = received_from Upstream tl \<and>
                  sent_to Upstream tl = received_from Client tl) \<and>
           (res = None \<longrightarrow> (\<exists>res' c. tl = [Send Client error_response res', Close Client c]))"
proof -
  from handle_client_events [OF assms(1,2)] obtain r1 ev c where
    ses: "session (Some d) r1 ev" and
    ne: "new_events s s' = [SetTimeout Client 30, Recv Client (buffer_size s) (Some d)] @ ev @
              (if r1 = Running then [] else [Close Client c])"
    by blast
  from ses have h: "handled Client (Some response_200) r1 ev"
    by (simp add: session_tunnel [OF assms(3-6)])
  from ne assms(7) have "Connect h p True \<in> set ev" by (auto split: if_splits)
  from handled_connected [OF h this] show ?thesis
  proof (elim disjE exE conjE)
    fix res'
    assume ev: "ev = [NewSocket True, SetTimeout Upstream 10, Connect h p True] @
                    (case Some response_200 of None \<Rightarrow> [] | Some raw \<Rightarrow> [Send Client raw None]) @
                    [Send Client error_response res']"
      and r1: "r1 = (if res' = None then Raised OSError else Returned)"
    from r1 have "r1 \<noteq> Running" by (simp split: if_splits)
    with ne ev have "new_events s s' =
            [SetTimeout Client 30, Recv Client (buffer_size s) (Some d), NewSocket True,
             SetTimeout Upstream 10, Connect h p True, Send Client response_200 None] @
            [Send Client error_response res', Close Client c]" by simp
    then show ?thesis by blast
  next
    fix raw sent rel
    assume raw: "Some response_200 = Some raw"
      and ev: "ev = [NewSocket True, SetTimeout Upstream 10, Connect h p True,
                     Send Client raw (Some sent)] @ rel"
      and rt: "relay_tail r1 rel"
    let ?tl = "rel @ (if r1 = Running then [] else [Close Client c])"
    from ne ev raw have "new_events s s' =
            [SetTimeout Client 30, Recv Client (buffer_size s) (Some d), NewSocket True,
             SetTimeout Upstream 10, Connect h p True, Send Client response_200 (Some sent)] @ ?tl"
      by simp
    moreover from relay_tail_sent [OF rt, of Client] relay_tail_sent [OF rt, of Upstream]
    have "sent_to Client ?tl = received_from Upstream ?tl \<and>
          sent_to Upstream ?tl = received_from Client ?tl" by simp
    ultimately show ?thesis by blast
  qed
qed

theorem connect_established_first_witness:
  "handle_client 2 simple_lib (friendly (script connect_request ''hello'')) start_state =
     (Returned, connect_final) \<and>
   Connect (Some (ascii ''example.com'')) 443 True \<in> set (new_events start_state connect_final) \<and>
   (\<exists>res tl. new_events start_state connect_final =
            [SetTimeout Client 30, Recv Client (buffer_size start_state) (Some connect_request),
             NewSocket True, SetTimeout Upstream 10,
             Connect (Some (ascii ''example.com'')) 443 True, Send Client response_200 res] @ tl \<and>
           (res \<noteq> None \<longrightarrow> sent_to Client tl = received_from Upstream tl \<and>
                  sent_to Upstream tl = received_from Client tl) \<and>
           (res = None \<longrightarrow> (\<exists>res' c. tl = [Send Client error_response res', Close Client c])))"
proof -
  have mem: "Connect (Some (ascii ''example.com'')) 443 True
               \<in> set (new_events start_state connect_final)"
    by (simp add: connect_final_def start_state_def new_events_def)
  from connect_established_first [OF run_connect_final connect_request_parts mem]
    run_connect_final mem
  show ?thesis by blast
qed

text \<open>
  C10. For a CONNECT request, the data written to the upstream socket are exactly the
  non-empty chunks read from the client after the first read: nothing of the first read
  is ever written to the upstream.
\<close>

theorem tunnel_forwards_only_relayed_bytes:
  assumes "handle_client fuel lib e s = (r, s')"
    and "recv_result e (Suc (length (trace s))) Client = Some d"
    and "utf8_decode d \<noteq> []"
    and "split_str crlf (utf8_decode d) = first_line # ls"
    and "split_str (ascii '' '') first_line = m # url # rest"
    and "startswith first_line (ascii ''CONNECT'')"
  shows "take 2 (new_events s s') = [SetTimeout Client 30, Recv Client (buffer_size s) (Some d)] \<and>
         sent_to Upstream (new_events s s') = received_from Client (drop 2 (new_events s s'))"
proof -
  from handle_client_events [OF assms(1,2)] obtain r1 ev c where
    ses: "session (Some d) r1 ev" and
    ne: "new_events s s' = [SetTimeout Client 30, Recv Client (buffer_size s) (Some d)] @ ev @
              (if r1 = Running then [] else [Close Client c])"
    by blast
  from ses have "handled Client (Some response_200) r1 ev"
    by (simp add: session_tunnel [OF assms(3-6)])
  from handled_tunnel_upstream [OF this] ne show ?thesis by simp
qed

theorem tunnel_forwards_only_relayed_bytes_witness:
  "handle_client 2 simple_lib (friendly (script connect_request ''hello'')) start_state =
     (Returned, connect_final) \<and>
   take 2 (new_events start_state connect_final) =
     [SetTimeout Client 30, Recv Client (buffer_size start_state) (Some connect_request)] \<and>
   sent_to Upstream (new_events start_state connect_final) =
     received_from Client (drop 2 (new_events start_state connect_final)) \<and>
   sent_to Upstream (new_events start_state connect_final) = [''hello'']"
proof -
  have "sent_to Upstream (new_events start_state connect_final) = [''hello'']"
    by (simp add: connect_final_def start_state_def new_events_def)
  with tunnel_forwards_only_relayed_bytes [OF run_connect_final connect_request_parts]
    run_connect_final
  show ?thesis by blast
qed




end
